theory Spec2Isabelle
  imports Complex_Main "HOL-Library.Log_Nat"
begin

section \<open>Float64 arithmetic\<close>

text \<open>
  The floats of Python and the float64 of numpy are IEEE 754 binary64. A finite float is
  modelled by the real number it denotes, and an operation on floats by the exact operation
  followed by \<open>binary64\<close>, the rounding to the nearest float with ties to the even
  significand.
  \<open>pow2 e\<close> is the power \<open>2 ^ e\<close> for an integer \<open>e\<close> of either sign, and \<open>exponent x\<close> is
  the \<open>e\<close> with \<open>2 ^ e \<le> x < 2 ^ (e + 1)\<close>, for positive \<open>x\<close>. The floats around \<open>x\<close> are
  the multiples of \<open>quantum x = 2 ^ (binade x - 52)\<close>, where \<open>binade x\<close> is \<open>exponent x\<close>, or
  \<open>-1022\<close> where \<open>x\<close> is smaller than every normal float (the subnormal floats are the
  multiples of \<open>2 ^ -1074\<close>).

  Infinities and NaN are not represented: a result of magnitude \<open>2 ^ 1024\<close> or more and a
  division by zero are outside this model. The estimator meets neither on the arguments
  considered below, where all its intermediate results lie between 0 and \<open>2 ^ 63\<close>.
\<close>

definition pow2 :: "int \<Rightarrow> real" where
  "pow2 e = (if 0 \<le> e then 2 ^ nat e else 1 / 2 ^ nat (- e))"

definition exponent :: "real \<Rightarrow> int" where
  "exponent x = (if 1 \<le> x then bitlen \<lfloor>x\<rfloor> - 1 else - bitlen (\<lceil>1 / x\<rceil> - 1))"

definition binade :: "real \<Rightarrow> int" where
  "binade x = max (exponent x) (- 1022)"

definition quantum :: "real \<Rightarrow> real" where
  "quantum x = pow2 (binade x - 52)"

text \<open>The nearest integer, the even one of the two when \<open>y\<close> lies half way.\<close>

definition round_half_even :: "real \<Rightarrow> int" where
  "round_half_even y =
     (let f = \<lfloor>y\<rfloor>; r = y - of_int f
      in if r < 1 / 2 then f else if 1 / 2 < r then f + 1 else if even f then f else f + 1)"

definition binary64 :: "real \<Rightarrow> real" where
  "binary64 x =
     (if x = 0 then 0
      else sgn x * (quantum \<bar>x\<bar> * of_int (round_half_even (\<bar>x\<bar> / quantum \<bar>x\<bar>))))"

text \<open>
  The conversion of an integer to a float, and the division, subtraction and multiplication
  of floats.
\<close>

definition float_of_int :: "int \<Rightarrow> real" where
  "float_of_int n = binary64 (of_int n)"

definition fdiv :: "real \<Rightarrow> real \<Rightarrow> real" where
  "fdiv a b = binary64 (a / b)"

definition fsub :: "real \<Rightarrow> real \<Rightarrow> real" where
  "fsub a b = binary64 (a - b)"

definition fmul :: "real \<Rightarrow> real \<Rightarrow> real" where
  "fmul a b = binary64 (a * b)"

section \<open>Statistical estimator\<close>

text \<open>
  \<open>np.arange(a, b)\<close> on integers is the array of the integers from \<open>a\<close> up to \<open>b - 1\<close>, empty
  when \<open>b \<le> a\<close>; its elements are 64-bit integers, which hold the integers below as long
  as \<open>b < 2 ^ 63\<close>. \<open>np.prod\<close> is \<open>np.multiply.reduce\<close>: it multiplies the elements from left
  to right, every product rounded, starting from the identity \<open>1.0\<close> (starting from the
  first element gives the same float, lemma \<open>fmul_one\<close> below); the product of the empty
  array is \<open>1.0\<close>.
\<close>

definition arange :: "int \<Rightarrow> int \<Rightarrow> int list" where
  "arange a b = [a..b - 1]"

definition np_prod :: "real list \<Rightarrow> real" where
  "np_prod xs = foldl fmul 1 xs"

text \<open>
  \<^verbatim>\<open>
  def get_pass_at_k(n, c, k):
      if n - c < k : return 1.0
      return 1.0 - np.prod(1.0 - k / np.arange(n - c + 1, n + 1))
  \<close>
  (the nested \<open>estimator\<close> of \<open>estimate_pass_at_k\<close> in the MBPP task has the same body).
  Python's integers are \<open>int\<close>. \<open>k / np.arange(...)\<close> converts \<open>k\<close> and every element of
  the array to float64 and divides element by element, and \<open>1.0 - ...\<close> subtracts element by
  element. \<open>k\<close> is an integer, as for pass@k and in the MBPP task; for pass@t the caller
  passes a float quotient, which this definition leaves out.
\<close>

definition get_pass_at_k :: "int \<Rightarrow> int \<Rightarrow> int \<Rightarrow> real" where
  "get_pass_at_k n c k =
     (if n - c < k then 1
      else fsub 1 (np_prod (map (fsub 1)
             (map (fdiv (float_of_int k)) (map float_of_int (arange (n - c + 1) (n + 1)))))))"

text \<open>One factor of the product, for the element \<open>i\<close> of the array.\<close>

definition miss :: "int \<Rightarrow> int \<Rightarrow> real" where
  "miss k i = fsub 1 (fdiv (float_of_int k) (float_of_int i))"

text \<open>
  The estimator as the specification words it, over the real numbers: 1 if \<open>n - c < k\<close>,
  otherwise one minus the product of \<open>1 - k / i\<close> for \<open>i\<close> from \<open>n - c + 1\<close> to \<open>n\<close>.
\<close>

definition estimate :: "int \<Rightarrow> int \<Rightarrow> int \<Rightarrow> real" where
  "estimate n c k =
     (if n - c < k then 1
      else 1 - prod_list (map (\<lambda>i. 1 - of_int k / of_int i) [n - c + 1..n]))"

section \<open>Python values\<close>

text \<open>
  Exceptions are values: a computation that can raise returns \<open>py_error + 'a\<close>, with
  \<open>Inl\<close> the exception. A computation that also contains one of the polling loops of
  \<open>run_d4j_test\<close> returns \<open>(py_error + 'a) option\<close>: \<open>None\<close> means that the loop is
  still polling when the observed behaviour of the subprocess ends.
\<close>

datatype py_error =
  IndexError | KeyError | ValueError | UnicodeDecodeError | OSError
  | FileNotFoundError | ParseError

text \<open>Sequencing: the first exception raised ends the computation.\<close>

definition and_then :: "py_error + 'a \<Rightarrow> ('a \<Rightarrow> py_error + 'b) \<Rightarrow> py_error + 'b" where
  "and_then m f = (case m of Inl e \<Rightarrow> Inl e | Inr x \<Rightarrow> f x)"

definition of_option :: "py_error \<Rightarrow> 'a option \<Rightarrow> py_error + 'a" where
  "of_option e m = (case m of None \<Rightarrow> Inl e | Some x \<Rightarrow> Inr x)"

text \<open>
  A Python \<open>str\<close> is a \<open>string\<close>; one \<open>char\<close> stands for one code point, so the model
  covers text whose code points are below 256. A \<open>bytes\<close> line read from a pipe or a file
  is either the UTF-8 encoding of a text or a byte sequence that is not valid UTF-8, on
  which \<open>.decode('utf-8')\<close> raises.
\<close>

datatype bytes = Utf8 string | Undecodable

fun decode :: "bytes \<Rightarrow> py_error + string" where
  "decode (Utf8 s) = Inr s"
| "decode Undecodable = Inl UnicodeDecodeError"

definition newline :: char where
  "newline = CHR 0x0A"

text \<open>\<open>str.isspace\<close> on the code points below 256; also what \<open>\s\<close> matches in \<open>re\<close>.\<close>

definition isspace :: "char \<Rightarrow> bool" where
  "isspace ch = ((of_char ch :: nat) \<in> {9, 10, 11, 12, 13, 28, 29, 30, 31, 32, 133, 160})"

text \<open>\<open>s.strip()\<close>\<close>

definition strip :: "string \<Rightarrow> string" where
  "strip s = rev (dropWhile isspace (rev (dropWhile isspace s)))"

text \<open>\<open>s.split(sep)\<close> for a separator of one character: never the empty list.\<close>

fun split :: "char \<Rightarrow> string \<Rightarrow> string list" where
  "split sep [] = [[]]"
| "split sep (ch # s) =
     (if ch = sep then [] # split sep s
      else (case split sep s of [] \<Rightarrow> [[ch]] | w # ws \<Rightarrow> (ch # w) # ws))"

text \<open>\<open>sep.join(xs)\<close>\<close>

fun join :: "string \<Rightarrow> string list \<Rightarrow> string" where
  "join sep [] = []"
| "join sep [x] = x"
| "join sep (x # y # ys) = x @ sep @ join sep (y # ys)"

text \<open>\<open>sub in s\<close> on strings\<close>

fun contains :: "string \<Rightarrow> string \<Rightarrow> bool" where
  "contains sub [] = (sub = [])"
| "contains sub (ch # s) = (take (length sub) (ch # s) = sub \<or> contains sub s)"

text \<open>\<open>s.replace(old, "")\<close> for \<open>old\<close> of one character\<close>

definition remove_char :: "char \<Rightarrow> string \<Rightarrow> string" where
  "remove_char c s = filter (\<lambda>x. x \<noteq> c) s"

text \<open>\<open>xs[i]\<close>: a negative index counts from the end, an index out of range raises.\<close>

definition index :: "'a list \<Rightarrow> int \<Rightarrow> py_error + 'a" where
  "index xs i =
     (let j = (if i < 0 then int (length xs) + i else i)
      in if j < 0 \<or> int (length xs) \<le> j then Inl IndexError else Inr (xs ! nat j))"

text \<open>\<open>xs[:i]\<close> and \<open>xs[i:]\<close>: a negative bound counts from the end, and bounds are clamped.\<close>

definition slice_to :: "'a list \<Rightarrow> int \<Rightarrow> 'a list" where
  "slice_to xs i = (if i < 0 then take (nat (int (length xs) + i)) xs else take (nat i) xs)"

definition slice_from :: "'a list \<Rightarrow> int \<Rightarrow> 'a list" where
  "slice_from xs i = (if i < 0 then drop (nat (int (length xs) + i)) xs else drop (nat i) xs)"

text \<open>\<open>os.path.join(a, b)\<close> for two components\<close>

definition path_join :: "string \<Rightarrow> string \<Rightarrow> string" where
  "path_join a b =
     (if b \<noteq> [] \<and> hd b = CHR ''/'' then b
      else if a = [] \<or> last a = CHR ''/'' then a @ b
      else a @ ''/'' @ b)"

text \<open>\<open>re.search(':\serror:\s', s)\<close> finds a match\<close>

fun has_error_marker :: "string \<Rightarrow> bool" where
  "has_error_marker (a # b # s) =
     ((a = CHR '':'' \<and> isspace b \<and> take 6 s = ''error:''
         \<and> (case drop 6 s of [] \<Rightarrow> False | c # _ \<Rightarrow> isspace c))
      \<or> has_error_marker (b # s))"
| "has_error_marker _ = False"

section \<open>The environment of a trial\<close>

text \<open>
  What a subprocess shows to the polling loop: each \<open>child.poll()\<close> either returns the exit
  status, or \<open>None\<close>, and then \<open>time.time() - while_begin\<close> is read (seconds, as a \<open>real\<close>).
\<close>

datatype poll = Exited int | Running real

record process =
  polls :: "poll list"
  stdout :: "bytes list"
  stderr :: "bytes list"

text \<open>A coverage report as \<open>xml.etree.ElementTree\<close> sees it.\<close>

datatype xml = Element (tag: string) (attrib: "(string \<times> string) list") (children: "xml list")

datatype xml_file = Missing | Malformed | Document xml

text \<open>
  Everything outside the repository that a trial depends on: the libraries it calls
  (\<open>javalang\<close>, the built-in \<open>float\<close> and \<open>int\<close> on strings; \<open>None\<close> is \<open>ValueError\<close>), the
  behaviour of the shell commands it starts, the files it can open for writing, the
  report file found by \<open>ET.parse\<close>, and the eight characters drawn by
  \<open>generate_random_string\<close>. A Python float is the real number it denotes; infinities
  and NaN are not represented.
\<close>

record world =
  javalang_parses :: "string \<Rightarrow> bool"
  float_of_str :: "string \<Rightarrow> real option"
  int_of_str :: "string \<Rightarrow> int option"
  popen :: "string \<Rightarrow> process"
  writable :: "string \<Rightarrow> bool"
  xml_at :: "string \<Rightarrow> xml_file"
  random_string :: string

text \<open>
  The effects of a trial, in the order they happen: \<open>subprocess.run\<close> of an argument
  vector, \<open>subprocess.Popen\<close> of a shell command, \<open>os.killpg\<close> of a child's process group
  (named by its command), and a file written.
\<close>

datatype event = Run "string list" | Popen string | Kill string | Write string string

section \<open>Coverage extractor\<close>

type_synonym line_info = "string \<times> string \<times> string \<times> bool"

text \<open>
  \<open>e.findall(".//t")\<close>: the elements below \<open>e\<close>, at any depth, with tag \<open>t\<close>, in document
  order; \<open>e\<close> itself is not among them.
\<close>

fun descendants :: "xml \<Rightarrow> xml list" where
  "descendants (Element t a cs) = concat (map (\<lambda>c. c # descendants c) cs)"

definition findall :: "string \<Rightarrow> xml \<Rightarrow> xml list" where
  "findall t e = filter (\<lambda>d. tag d = t) (descendants e)"

text \<open>\<open>e.attrib[k]\<close>\<close>

definition attr :: "xml \<Rightarrow> string \<Rightarrow> py_error + string" where
  "attr e k = of_option KeyError (map_of (attrib e) k)"

text \<open>
  \<^verbatim>\<open>
  for line_element in class_element.findall(".//line"):
      all_lines_info.append((be_test_class_name, be_test_class_file,
                             line_element.attrib["number"],
                             int(line_element.attrib["hits"])>0))
  \<close>
\<close>

fun line_loop ::
  "world \<Rightarrow> string \<Rightarrow> string \<Rightarrow> xml list \<Rightarrow> line_info list \<Rightarrow> py_error + line_info list" where
  "line_loop w name file [] all_lines_info = Inr all_lines_info"
| "line_loop w name file (line_element # rest) all_lines_info =
     and_then (attr line_element ''number'') (\<lambda>number.
     and_then (attr line_element ''hits'') (\<lambda>hits.
     and_then (of_option ValueError (int_of_str w hits)) (\<lambda>h.
       line_loop w name file rest (all_lines_info @ [(name, file, number, h > 0)]))))"

text \<open>
  \<^verbatim>\<open>
  for class_element in package.findall(".//class"):
      be_test_class_name = class_element.attrib["name"]
      be_test_class_file = class_element.attrib["filename"]
      for line_element in ...
  \<close>
\<close>

fun class_loop :: "world \<Rightarrow> xml list \<Rightarrow> line_info list \<Rightarrow> py_error + line_info list" where
  "class_loop w [] all_lines_info = Inr all_lines_info"
| "class_loop w (class_element # rest) all_lines_info =
     and_then (attr class_element ''name'') (\<lambda>be_test_class_name.
     and_then (attr class_element ''filename'') (\<lambda>be_test_class_file.
     and_then (line_loop w be_test_class_name be_test_class_file
                 (findall ''line'' class_element) all_lines_info)
       (class_loop w rest)))"

text \<open>\<open>for package in root.findall(".//package"): ...\<close>\<close>

fun package_loop :: "world \<Rightarrow> xml list \<Rightarrow> line_info list \<Rightarrow> py_error + line_info list" where
  "package_loop w [] all_lines_info = Inr all_lines_info"
| "package_loop w (package # rest) all_lines_info =
     and_then (class_loop w (findall ''class'' package) all_lines_info) (package_loop w rest)"

text \<open>
  \<^verbatim>\<open>
  def analysis_coverage(tmp_project_path):
      xml_file_path = os.path.join(tmp_project_path, "coverage.xml")
      tree = ET.parse(xml_file_path)
      root = tree.getroot()
      all_lines_info = []
      for package in root.findall(".//package"): ...
      return all_lines_info
  \<close>
  \<open>ET.parse\<close> raises \<open>FileNotFoundError\<close> when the file is missing and \<open>ParseError\<close> when it
  is not well-formed XML; the function catches neither.
\<close>

definition analysis_coverage :: "world \<Rightarrow> string \<Rightarrow> py_error + line_info list" where
  "analysis_coverage w tmp_project_path =
     (case xml_at w (path_join tmp_project_path ''coverage.xml'') of
        Missing \<Rightarrow> Inl FileNotFoundError
      | Malformed \<Rightarrow> Inl ParseError
      | Document tree_root \<Rightarrow> package_loop w (findall ''package'' tree_root) [])"

section \<open>Effects\<close>

text \<open>
  A computation with effects returns the events it caused and, when it came to an end,
  its value or the exception it raised.
\<close>

type_synonym 'a run = "event list \<times> (py_error + 'a) option"

definition ret :: "'a \<Rightarrow> 'a run" where
  "ret x = ([], Some (Inr x))"

definition lift :: "py_error + 'a \<Rightarrow> 'a run" where
  "lift m = ([], Some m)"

definition emit :: "event \<Rightarrow> unit run" where
  "emit ev = ([ev], Some (Inr ()))"

definition seq :: "'a run \<Rightarrow> ('a \<Rightarrow> 'b run) \<Rightarrow> 'b run" where
  "seq m f =
     (case snd m of
        None \<Rightarrow> (fst m, None)
      | Some (Inl e) \<Rightarrow> (fst m, Some (Inl e))
      | Some (Inr x) \<Rightarrow> (fst m @ fst (f x), snd (f x)))"

text \<open>\<open>open(path, 'w')\<close> and \<open>open(path, 'wb')\<close>\<close>

definition open_write :: "world \<Rightarrow> string \<Rightarrow> unit run" where
  "open_write w path = (if writable w path then ret () else lift (Inl OSError))"

text \<open>
  \<^verbatim>\<open>
  def save_file(file_path, content):
      with open(file_path, 'w', encoding='utf-8') as f:
          f.write(content)
  \<close>
\<close>

definition save_file :: "world \<Rightarrow> string \<Rightarrow> string \<Rightarrow> unit run" where
  "save_file w file_path content =
     seq (open_write w file_path) (\<lambda>_. emit (Write file_path content))"

section \<open>Tool runner\<close>

text \<open>
  The polling loop of \<open>run_d4j_test\<close>, which the function has twice, with limits 120 and
  180:
  \<^verbatim>\<open>
  while True:
      Flag = child.poll()
      if Flag == 0: ...; break
      elif Flag != 0 and Flag is not None: ...; break
      elif time.time() - while_begin > 120: ...; break
      else: time.sleep(0.01)
  \<close>
  The result says through which branch the loop was left; \<open>None\<close> when the observations
  end with the loop still polling.
\<close>

datatype wait = Clean | Abnormal | Killed

fun wait_loop :: "real \<Rightarrow> poll list \<Rightarrow> wait option" where
  "wait_loop limit [] = None"
| "wait_loop limit (Exited Flag # ps) = (if Flag = 0 then Some Clean else Some Abnormal)"
| "wait_loop limit (Running elapsed # ps) =
     (if elapsed > limit then Some Killed else wait_loop limit ps)"

definition waiting :: "real \<Rightarrow> process \<Rightarrow> wait run" where
  "waiting limit child = ([], map_option Inr (wait_loop limit (polls child)))"

section \<open>Outcome classifier\<close>

text \<open>
  \<^verbatim>\<open>
  for line in r:
      if re.search(':\serror:\s', line.decode('utf-8')):
          error_string = line.decode('utf-8')
          break
  \<close>
\<close>

fun scan_stderr :: "bytes list \<Rightarrow> py_error + string" where
  "scan_stderr [] = Inr []"
| "scan_stderr (line # r) =
     and_then (decode line) (\<lambda>s. if has_error_marker s then Inr s else scan_stderr r)"

text \<open>
  \<^verbatim>\<open>
  if len(log) > 0 and log[-1].decode('utf-8') == "Failing tests: 0\n":
      bugg = False
  else:
      bugg = True
  \<close>
\<close>

definition failing_tests :: "bytes list \<Rightarrow> py_error + bool" where
  "failing_tests log_lines =
     (if length log_lines > 0
      then and_then (index log_lines (- 1)) (\<lambda>l.
           and_then (decode l) (\<lambda>s. Inr (s \<noteq> ''Failing tests: 0'' @ [newline])))
      else Inr True)"

text \<open>
  \<open>float(s.split(":")[-1].strip().replace("%", "")) / 100.0\<close>, a division of floats.
\<close>

definition percentage :: "world \<Rightarrow> string \<Rightarrow> py_error + real" where
  "percentage w s =
     and_then (index (split CHR '':'' s) (- 1)) (\<lambda>field.
     and_then (of_option ValueError (float_of_str w (remove_char CHR ''%'' (strip field))))
       (\<lambda>v. Inr (fdiv v 100)))"

text \<open>
  \<^verbatim>\<open>
  if "Line coverage:" in log[-2].decode('utf-8'):
      line_coverage = log[-2].decode('utf-8').split(":")[-1].strip().replace("%", "")
      line_coverage = float(line_coverage) / 100.0
  if "Condition coverage:" in log[-1].decode('utf-8'):
      condition_coverage = log[-1].decode('utf-8').split(":")[-1].strip().replace("%", "")
      condition_coverage = float(condition_coverage) / 100.0
  \<close>
  with \<open>line_coverage = 0\<close> and \<open>condition_coverage = 0\<close> before.
\<close>

definition coverage_figures :: "world \<Rightarrow> bytes list \<Rightarrow> py_error + real \<times> real" where
  "coverage_figures w log_lines =
     and_then (index log_lines (- 2)) (\<lambda>l2.
     and_then (decode l2) (\<lambda>s2.
     and_then (if contains ''Line coverage:'' s2 then percentage w s2 else Inr 0)
       (\<lambda>line_coverage.
     and_then (index log_lines (- 1)) (\<lambda>l1.
     and_then (decode l1) (\<lambda>s1.
     and_then (if contains ''Condition coverage:'' s1 then percentage w s1 else Inr 0)
       (\<lambda>condition_coverage.
       Inr (line_coverage, condition_coverage)))))))"

text \<open>
  \<^verbatim>\<open>
  if len(log) > 0:
      if "Line coverage:" in ...
      if "Condition coverage:" in ...
      lines_coverage_info = analysis_coverage('/tmp/' + bug_id)
  \<close>
  with \<open>lines_coverage_info = []\<close> before.
\<close>

definition read_coverage ::
  "world \<Rightarrow> string \<Rightarrow> bytes list \<Rightarrow> py_error + real \<times> real \<times> line_info list" where
  "read_coverage w bug_id log_lines =
     (if length log_lines > 0 then
        and_then (coverage_figures w log_lines) (\<lambda>(line_coverage, condition_coverage).
        and_then (analysis_coverage w (''/tmp/'' @ bug_id)) (\<lambda>lines_coverage_info.
          Inr (line_coverage, condition_coverage, lines_coverage_info)))
      else Inr (0, 0, []))"

definition test_cmd :: "string \<Rightarrow> string \<Rightarrow> string" where
  "test_cmd bug_id testmethod =
     ''defects4j test -w '' @ (''/tmp/'' @ bug_id) @ ''/ -t '' @ strip testmethod"

text \<open>\<open>increment_path = os.path.join('/tmp/' + bug_id, "increment.txt")\<close>\<close>

definition increment_path_of :: "string \<Rightarrow> string" where
  "increment_path_of bug_id = path_join (''/tmp/'' @ bug_id) ''increment.txt''"

definition coverage_cmd :: "string \<Rightarrow> string \<Rightarrow> string \<Rightarrow> string" where
  "coverage_cmd bug_id testmethod increment_path =
     join '' '' [''defects4j'', ''coverage'', ''-w'', ''/tmp/'' @ bug_id, ''-t'',
                 strip testmethod, ''-i'', increment_path]"

text \<open>
  The coverage stage, the body of \<open>if not bugg:\<close> in \<open>run_d4j_test\<close>. It returns
  \<open>bugg\<close>, \<open>line_coverage\<close>, \<open>condition_coverage\<close> and \<open>lines_coverage_info\<close>.
\<close>

definition coverage_stage ::
  "world \<Rightarrow> string \<Rightarrow> string \<Rightarrow> string list \<Rightarrow> (bool \<times> real \<times> real \<times> line_info list) run" where
  "coverage_stage w bug_id testmethod be_test_classes =
     (let increment_path = increment_path_of bug_id;
          cmd = coverage_cmd bug_id testmethod increment_path;
          child = popen w cmd
      in seq (save_file w increment_path
                (concat (map (\<lambda>file. file @ [newline]) be_test_classes))) (\<lambda>_.
         seq (emit (Popen cmd)) (\<lambda>_.
         seq (waiting 180 child) (\<lambda>ended.
         seq (case ended of
                Clean \<Rightarrow> ret (False, stdout child)
              | Abnormal \<Rightarrow> ret (True, [])
              | Killed \<Rightarrow> seq (emit (Kill cmd)) (\<lambda>_. ret (True, []))) (\<lambda>(bugg, log_lines).
         seq (lift (read_coverage w bug_id log_lines))
           (\<lambda>(line_coverage, condition_coverage, lines_coverage_info).
         ret (bugg, line_coverage, condition_coverage, lines_coverage_info)))))))"

text \<open>
  The test stage of \<open>run_d4j_test\<close>: the first subprocess, its polling loop, and the
  check of the last line. It returns \<open>compile_fail\<close>, \<open>timed_out\<close> and \<open>bugg\<close>.
\<close>

definition test_stage :: "world \<Rightarrow> string \<Rightarrow> string \<Rightarrow> (bool \<times> bool \<times> bool) run" where
  "test_stage w bug_id testmethod =
     (let cmd = test_cmd bug_id testmethod;
          child = popen w cmd
      in seq (open_write w ''/tmp/stderr.txt'') (\<lambda>_.
         seq (emit (Popen cmd)) (\<lambda>_.
         seq (waiting 120 child) (\<lambda>ended.
         seq (case ended of
                Clean \<Rightarrow> ret (False, False, stdout child)
              | Abnormal \<Rightarrow>
                  seq (lift (scan_stderr (stderr child))) (\<lambda>error_string. ret (True, False, []))
              | Killed \<Rightarrow> seq (emit (Kill cmd)) (\<lambda>_. ret (False, True, [])))
           (\<lambda>(compile_fail, timed_out, log_lines).
         seq (lift (failing_tests log_lines)) (\<lambda>bugg.
         ret (compile_fail, timed_out, bugg)))))))"

text \<open>
  \<open>run_d4j_test(source, testmethods, bug_id, be_test_classes)\<close> returns the tuple
  \<open>(compile_fail, timed_out, bugg, line_coverage, condition_coverage, syntax_error,
  lines_coverage_info)\<close>. The statement around the javalang parser has a bare \<open>except\<close>:
  whatever the parser raises is a syntax error.
\<close>

type_synonym d4j_result = "bool \<times> bool \<times> bool \<times> real \<times> real \<times> bool \<times> line_info list"

definition run_d4j_test ::
  "world \<Rightarrow> string \<Rightarrow> string list \<Rightarrow> string \<Rightarrow> string list \<Rightarrow> d4j_result run" where
  "run_d4j_test w source testmethods bug_id be_test_classes =
     (if \<not> javalang_parses w source then ret (True, False, True, 0, 0, True, [])
      else
        seq (lift (index testmethods 0)) (\<lambda>testmethod.
        seq (test_stage w bug_id testmethod) (\<lambda>(compile_fail, timed_out, bugg).
        seq (if \<not> bugg then coverage_stage w bug_id testmethod be_test_classes
             else ret (bugg, 0, 0, []))
          (\<lambda>(bugg, line_coverage, condition_coverage, lines_coverage_info).
        ret (compile_fail, timed_out, bugg \<or> line_coverage = 0, line_coverage,
             condition_coverage, False, lines_coverage_info)))))"

section \<open>Workspace manager and trial\<close>

text \<open>
  The work item of a trial, the tuple unpacked at the start of \<open>validate_all_patches\<close>.
  \<open>bug_id\<close> is carried as the text \<open>str(bug_id)\<close>.
\<close>

record item =
  item_idx :: int
  patch :: string
  item_project :: string
  item_bug_id :: string
  testmethods :: "string list"
  source_dir :: string
  start_line :: int
  end_line :: int
  location :: string
  source :: string
  be_test_classes :: "string list"

text \<open>The dictionary returned by \<open>validate_all_patches\<close>.\<close>

record outcome =
  idx :: int
  project :: string
  bug_id :: string
  pass_syntax :: bool
  pass_compile :: bool
  pass_trigger :: bool
  line_coverage :: real
  condition_coverage :: real
  timed_out :: bool
  lines_coverage_info :: "line_info list"

text \<open>
  \<^verbatim>\<open>
  source = source.split("\n")
  patch = patch.split("\n")
  source = "\n".join(source[:start] + patch + source[end+1:])
  \<close>
\<close>

definition splice_patch :: "string \<Rightarrow> string \<Rightarrow> int \<Rightarrow> int \<Rightarrow> string" where
  "splice_patch src pat start end' =
     join [newline]
       (slice_to (split newline src) start @ split newline pat
          @ slice_from (split newline src) (end' + 1))"

definition tmp_folder_of :: "world \<Rightarrow> item \<Rightarrow> string" where
  "tmp_folder_of w it = item_project it @ ''-'' @ item_bug_id it @ ''-'' @ random_string w"

definition validate_all_patches :: "world \<Rightarrow> item \<Rightarrow> outcome run" where
  "validate_all_patches w it =
     (let tmp_folder = tmp_folder_of w it;
          spliced = splice_patch (source it) (patch it) (start_line it) (end_line it)
      in seq (emit (Run [''rm'', ''-rf'', ''/tmp/'' @ tmp_folder])) (\<lambda>_.
         seq (emit (Run [''defects4j'', ''checkout'', ''-p'', item_project it, ''-v'',
                         item_bug_id it @ ''f'', ''-w'', ''/tmp/'' @ tmp_folder])) (\<lambda>_.
         seq (save_file w (''/tmp/'' @ tmp_folder @ ''/'' @ location it) spliced) (\<lambda>_.
         seq (run_d4j_test w spliced (testmethods it) tmp_folder (be_test_classes it))
           (\<lambda>(compile_fail, timed_out, bugg, line_coverage, condition_coverage,
               syntax_error, lines_coverage_info).
         seq (emit (Run [''rm'', ''-rf'', ''/tmp/'' @ tmp_folder])) (\<lambda>_.
         ret \<lparr>idx = item_idx it, project = item_project it, bug_id = item_bug_id it,
              pass_syntax = \<not> syntax_error, pass_compile = \<not> compile_fail,
              pass_trigger = \<not> bugg, line_coverage = line_coverage,
              condition_coverage = condition_coverage, timed_out = timed_out,
              lines_coverage_info = lines_coverage_info\<rparr>))))))"

text \<open>
  The coverage subprocess of a trial that runs the test method \<open>t\<close>, and the condition
  under which the trial gets as far as starting it: the spliced source parses, \<open>t\<close> is
  the first test method, the files that are written on the way can be written, and the
  test command leaves its polling loop through the clean-exit branch with \<open>bugg = False\<close>.
\<close>

definition coverage_child :: "world \<Rightarrow> item \<Rightarrow> string \<Rightarrow> process" where
  "coverage_child w it t =
     popen w (coverage_cmd (tmp_folder_of w it) t (increment_path_of (tmp_folder_of w it)))"

text \<open>
  The test subprocess of a trial that runs the test method \<open>t\<close>, and the condition
  under which the trial gets as far as starting it.
\<close>

definition test_child :: "world \<Rightarrow> item \<Rightarrow> string \<Rightarrow> process" where
  "test_child w it t = popen w (test_cmd (tmp_folder_of w it) t)"

definition starts_test :: "world \<Rightarrow> item \<Rightarrow> string \<Rightarrow> bool" where
  "starts_test w it t =
     (javalang_parses w (splice_patch (source it) (patch it) (start_line it) (end_line it))
      \<and> (case testmethods it of [] \<Rightarrow> False | x # _ \<Rightarrow> x = t)
      \<and> writable w (''/tmp/'' @ tmp_folder_of w it @ ''/'' @ location it)
      \<and> writable w ''/tmp/stderr.txt'')"

definition reaches_coverage :: "world \<Rightarrow> item \<Rightarrow> string \<Rightarrow> bool" where
  "reaches_coverage w it t =
     (javalang_parses w (splice_patch (source it) (patch it) (start_line it) (end_line it))
      \<and> (case testmethods it of [] \<Rightarrow> False | x # _ \<Rightarrow> x = t)
      \<and> writable w (''/tmp/'' @ tmp_folder_of w it @ ''/'' @ location it)
      \<and> writable w ''/tmp/stderr.txt''
      \<and> wait_loop 120 (polls (popen w (test_cmd (tmp_folder_of w it) t))) = Some Clean
      \<and> failing_tests (stdout (popen w (test_cmd (tmp_folder_of w it) t))) = Inr False
      \<and> writable w (increment_path_of (tmp_folder_of w it)))"

text \<open>
  The splice as the specification words it, replacing the half-open line range that
  starts at \<open>start\<close> and ends before \<open>end\<close>:
  \<open>"\n".join(source[:start] + patch + source[end:])\<close>. It is compared with
  \<open>splice_patch\<close> below.
\<close>

definition splice_half_open :: "string \<Rightarrow> string \<Rightarrow> int \<Rightarrow> int \<Rightarrow> string" where
  "splice_half_open src pat start end' =
     join [newline]
       (slice_to (split newline src) start @ split newline pat
          @ slice_from (split newline src) end')"

text \<open>
  Reading a span back: the \<open>n\<close> lines of a text from line \<open>start\<close> on,
  \<open>"\n".join(text.split("\n")[start:][:n])\<close>. The repository has no such function; it
  states the round trip of \<open>splice_patch\<close>.
\<close>

definition extract_lines :: "string \<Rightarrow> int \<Rightarrow> nat \<Rightarrow> string" where
  "extract_lines text start n = join [newline] (take n (slice_from (split newline text) start))"

text \<open>What a computation returned, if it returned, and what it raised, if it raised.\<close>

definition returned :: "'a run \<Rightarrow> 'a option" where
  "returned m = (case snd m of Some (Inr x) \<Rightarrow> Some x | _ \<Rightarrow> None)"

definition raised :: "'a run \<Rightarrow> py_error option" where
  "raised m = (case snd m of Some (Inl e) \<Rightarrow> Some e | _ \<Rightarrow> None)"

section \<open>Result aggregator\<close>

text \<open>
  The summary of one task in \<open>CodeUJBTestGen.evaluate\<close>, the dictionary
  \<open>example_detail\<close>; \<open>diff_coverage\<close> is a Python set of the tuples of
  \<open>lines_coverage_info\<close>.
\<close>

record example_detail =
  total :: nat
  pass_syntax_count :: nat
  pass_compile_count :: nat
  pass_trigger_count :: nat
  line_coverage_list :: "real list"
  condition_coverage_list :: "real list"
  diff_coverage :: "line_info set"
  timed_out_count :: nat

definition new_example_detail :: example_detail where
  "new_example_detail =
     \<lparr>total = 0, pass_syntax_count = 0, pass_compile_count = 0, pass_trigger_count = 0,
      line_coverage_list = [], condition_coverage_list = [], diff_coverage = {},
      timed_out_count = 0\<rparr>"

text \<open>
  \<^verbatim>\<open>
  for detail in bug_results:
      example_detail["total"] += 1
      if detail["pass_syntax"]: example_detail["pass_syntax"]["count"] += 1
      if detail["pass_compile"]: example_detail["pass_compile"]["count"] += 1
      if detail["pass_trigger"]: example_detail["pass_trigger"]["count"] += 1
      if detail["timed_out"]: example_detail["timed_out"] += 1
      example_detail["line_coverage"].append(detail["line_coverage"])
      example_detail["condition_coverage"].append(detail["condition_coverage"])
      for line in detail["lines_coverage_info"]:
          example_detail["diff_coverage"].add(line)
  \<close>
\<close>

definition add_detail :: "example_detail \<Rightarrow> outcome \<Rightarrow> example_detail" where
  "add_detail d detail =
     d\<lparr>total := total d + 1,
       pass_syntax_count := pass_syntax_count d + (if pass_syntax detail then 1 else 0),
       pass_compile_count := pass_compile_count d + (if pass_compile detail then 1 else 0),
       pass_trigger_count := pass_trigger_count d + (if pass_trigger detail then 1 else 0),
       timed_out_count := timed_out_count d + (if timed_out detail then 1 else 0),
       line_coverage_list := line_coverage_list d @ [line_coverage detail],
       condition_coverage_list := condition_coverage_list d @ [condition_coverage detail],
       diff_coverage := foldl (\<lambda>s line. insert line s) (diff_coverage d)
                          (lines_coverage_info detail)\<rparr>"

definition collect_details :: "outcome list \<Rightarrow> example_detail" where
  "collect_details bug_results = foldl add_detail new_example_detail bug_results"

text \<open>
  \<^verbatim>\<open>
  example_detail["diff_coverage"] = list(example_detail["diff_coverage"])
  if len(example_detail["diff_coverage"]) == 0:
      example_detail["diff_coverage"] = 0
  else:
      example_detail["diff_coverage"] = \
          len([x for x in example_detail["diff_coverage"] if x[-1] == True])
            / len(example_detail["diff_coverage"])
  \<close>
\<close>

text \<open>The quotient of two Python integers is the float nearest to the exact quotient.\<close>

definition diff_coverage_ratio :: "line_info set \<Rightarrow> real" where
  "diff_coverage_ratio s =
     (if card s = 0 then 0
      else binary64 (real (card {x \<in> s. snd (snd (snd x)) = True}) / real (card s)))"

text \<open>The key of a changed-line record: class, file and line number.\<close>

definition key_of :: "line_info \<Rightarrow> string \<times> string \<times> string" where
  "key_of x = (fst x, fst (snd x), fst (snd (snd x)))"

section \<open>Stand-ins for the closed examples\<close>

text \<open>
  The closed examples below need a concrete world. \<open>simple_int\<close> and \<open>simple_float\<close> read
  a plain decimal numeral with an optional minus sign, as \<open>int\<close> and \<open>float\<close> do on such a
  text, and refuse every other text; the examples apply them to plain numerals and to
  texts that \<open>int\<close> refuses too.
\<close>

fun digits :: "string \<Rightarrow> nat \<Rightarrow> nat option" where
  "digits [] acc = Some acc"
| "digits (c # cs) acc =
     (if 48 \<le> (of_char c :: nat) \<and> (of_char c :: nat) \<le> 57
      then digits cs (10 * acc + (of_char c - 48)) else None)"

definition numeral_of :: "string \<Rightarrow> nat option" where
  "numeral_of s = (if s = [] then None else digits s 0)"

definition simple_int :: "string \<Rightarrow> int option" where
  "simple_int s =
     (if s \<noteq> [] \<and> hd s = CHR ''-'' then map_option (\<lambda>n. - int n) (numeral_of (tl s))
      else map_option int (numeral_of s))"

definition decimal_of :: "string \<Rightarrow> real option" where
  "decimal_of s =
     (let whole = takeWhile (\<lambda>c. c \<noteq> CHR ''.'') s;
          frac = drop 1 (dropWhile (\<lambda>c. c \<noteq> CHR ''.'') s)
      in case (numeral_of whole, digits frac 0) of
           (Some a, Some b) \<Rightarrow> Some (real a + real b / 10 ^ length frac)
         | _ \<Rightarrow> None)"

definition simple_float :: "string \<Rightarrow> real option" where
  "simple_float s =
     (if s \<noteq> [] \<and> hd s = CHR ''-'' then map_option uminus (decimal_of (tl s))
      else decimal_of s)"

text \<open>
  A world in which the Java parser answers \<open>parses\<close>, every file can be written, the
  \<open>defects4j test\<close> command behaves as \<open>test_proc\<close>, every other shell command as
  \<open>coverage_proc\<close>, and the report file is \<open>report\<close>.
\<close>

definition demo_world :: "bool \<Rightarrow> process \<Rightarrow> process \<Rightarrow> xml_file \<Rightarrow> world" where
  "demo_world parses test_proc coverage_proc report =
     \<lparr>javalang_parses = (\<lambda>_. parses), float_of_str = simple_float, int_of_str = simple_int,
      popen = (\<lambda>cmd. if take 14 cmd = ''defects4j test'' then test_proc else coverage_proc),
      writable = (\<lambda>_. True), xml_at = (\<lambda>_. report), random_string = ''a1B2c3D4''\<rparr>"

definition demo_item :: item where
  "demo_item =
     \<lparr>item_idx = 0, patch = ''  return 1;'',
      item_project = ''Lang'', item_bug_id = ''1'',
      testmethods = [''org.T::testA'', ''org.T::testB''], source_dir = ''src'',
      start_line = 1, end_line = 1, location = ''src/A.java'',
      source = ''int f() {\<newline>  return 0;\<newline>}'',
      be_test_classes = [''org.A'']\<rparr>"

text \<open>Behaviours of a subprocess, and two reports.\<close>

definition exits_with :: "int \<Rightarrow> string list \<Rightarrow> process" where
  "exits_with rc out_lines =
     \<lparr>polls = [Running 1, Exited rc], stdout = map Utf8 out_lines, stderr = []\<rparr>"

definition hangs :: process where
  "hangs = \<lparr>polls = [Running 60, Running 119, Running 121, Running 122], stdout = [], stderr = []\<rparr>"

definition passing :: process where
  "passing = exits_with 0 [''Failing tests: 0\<newline>'']"

definition garbled :: process where
  "garbled =
     \<lparr>polls = [Running 1, Exited 0], stdout = [Utf8 ''Tests run'', Undecodable], stderr = []\<rparr>"

definition good_coverage :: process where
  "good_coverage =
     exits_with 0 [''Line coverage: 80.0%\<newline>'', ''Condition coverage: 50%\<newline>'']"

definition zero_coverage :: process where
  "zero_coverage =
     exits_with 0 [''Line coverage: 0%\<newline>'', ''Condition coverage: 0%\<newline>'']"

definition slow_coverage :: process where
  "slow_coverage =
     \<lparr>polls = [Running 90, Running 179, Running 181], stdout = [], stderr = []\<rparr>"

definition one_line_coverage :: process where
  "one_line_coverage = exits_with 0 [''Line coverage: 80.0%\<newline>'']"

definition failing_build :: process where
  "failing_build =
     \<lparr>polls = [Running 1, Exited 1], stdout = [],
      stderr = [Utf8 ''Running ant (compile)\<newline>'', Undecodable,
                Utf8 ''A.java:2: error: missing return\<newline>'']\<rparr>"

definition demo_report :: xml where
  "demo_report =
     Element ''coverage'' []
       [Element ''packages'' []
          [Element ''package'' [(''name'', ''org'')]
             [Element ''classes'' []
                [Element ''class'' [(''name'', ''org.A''), (''filename'', ''org/A.java'')]
                   [Element ''lines'' []
                      [Element ''line'' [(''number'', ''1''), (''hits'', ''3'')] [],
                       Element ''line'' [(''number'', ''2''), (''hits'', ''0'')] []]]]]]]"

definition broken_report :: xml where
  "broken_report =
     Element ''coverage'' []
       [Element ''package'' [(''name'', ''org'')]
          [Element ''class'' [(''name'', ''org.A''), (''filename'', ''org/A.java'')]
             [Element ''line'' [(''number'', ''1''), (''hits'', ''3'')] [],
              Element ''line'' [(''number'', ''2''), (''hits'', ''many'')] []]]]"

text \<open>Two outcomes of one task that report the same line, one as hit and one as missed.\<close>

definition hit_trial :: outcome where
  "hit_trial =
     \<lparr>idx = 0, project = ''Lang'', bug_id = ''1'', pass_syntax = True, pass_compile = True,
      pass_trigger = True, line_coverage = fdiv 80 100, condition_coverage = fdiv 50 100,
      timed_out = False, lines_coverage_info = [(''org.A'', ''org/A.java'', ''1'', True)]\<rparr>"

definition miss_trial :: outcome where
  "miss_trial =
     \<lparr>idx = 0, project = ''Lang'', bug_id = ''1'', pass_syntax = True, pass_compile = True,
      pass_trigger = True, line_coverage = fdiv 20 100, condition_coverage = fdiv 50 100,
      timed_out = False, lines_coverage_info = [(''org.A'', ''org/A.java'', ''1'', False)]\<rparr>"

definition unwritable_world :: world where
  "unwritable_world = (demo_world False passing passing Missing)\<lparr>writable := (\<lambda>_. False)\<rparr>"

section \<open>Well-formed reports\<close>






section \<open>Properties of float64 rounding\<close>

lemma pow2_powr: "pow2 e = 2 powr real_of_int e"
  by (simp add: pow2_def powr_real_of_int inverse_eq_divide)

lemma pow2_pos: "0 < pow2 e"
  by (simp add: pow2_powr)

lemma pow2_add: "pow2 (a + b) = pow2 a * pow2 b"
  by (simp add: pow2_powr powr_add)

lemma pow2_mono: "a \<le> b \<Longrightarrow> pow2 a \<le> pow2 b"
  by (simp add: pow2_powr)

lemma pow2_less_iff: "pow2 a < pow2 b \<longleftrightarrow> a < b"
  by (simp add: pow2_powr)

lemma pow2_le_iff: "pow2 a \<le> pow2 b \<longleftrightarrow> a \<le> b"
  by (simp add: pow2_powr)

lemma pow2_0: "pow2 0 = 1"
  by (simp add: pow2_def)

lemma bitlen_pos: "0 < m \<Longrightarrow> 0 < bitlen m"
  by (subst compute_bitlen) (simp add: bitlen_nonneg add_nonneg_pos)

lemma bitlen_lower: "0 < m \<Longrightarrow> pow2 (bitlen m - 1) \<le> of_int m"
proof -
  assume m: "0 < m"
  from bitlen_bounds[OF m] have "2 ^ nat (bitlen m - 1) \<le> m" by simp
  hence "real_of_int (2 ^ nat (bitlen m - 1)) \<le> of_int m" by (simp only: of_int_le_iff)
  thus ?thesis using bitlen_pos[OF m] by (simp add: pow2_def)
qed

lemma bitlen_upper: "0 < m \<Longrightarrow> of_int (m + 1) \<le> pow2 (bitlen m)"
proof -
  assume m: "0 < m"
  from bitlen_bounds[OF m] have "m + 1 \<le> 2 ^ nat (bitlen m)" by simp
  hence "real_of_int (m + 1) \<le> of_int (2 ^ nat (bitlen m))" by (simp only: of_int_le_iff)
  thus ?thesis using bitlen_pos[OF m] by (simp add: pow2_def)
qed

lemma exponent_lower:
  assumes "0 < x"
  shows "pow2 (exponent x) \<le> x"
proof (cases "1 \<le> x")
  case True
  hence m: "0 < \<lfloor>x\<rfloor>" by simp
  have "pow2 (bitlen \<lfloor>x\<rfloor> - 1) \<le> of_int \<lfloor>x\<rfloor>" by (rule bitlen_lower[OF m])
  also have "\<dots> \<le> x" by simp
  finally show ?thesis using True by (simp add: exponent_def)
next
  case False
  define m where "m = \<lceil>1 / x\<rceil> - 1"
  from False assms have "1 < 1 / x" by simp
  hence "1 < \<lceil>1 / x\<rceil>" by (simp add: less_ceiling_iff)
  hence m: "0 < m" by (simp add: m_def)
  have "1 / x \<le> of_int (m + 1)" by (simp add: m_def)
  also have "\<dots> \<le> pow2 (bitlen m)" by (rule bitlen_upper[OF m])
  finally have "1 / x \<le> pow2 (bitlen m)" .
  hence "1 \<le> pow2 (bitlen m) * x" using assms by (simp add: field_simps)
  moreover have "pow2 (- bitlen m) * pow2 (bitlen m) = 1"
    using pow2_add[of "- bitlen m" "bitlen m"] by (simp add: pow2_0)
  ultimately have "pow2 (- bitlen m) \<le> x"
    using pow2_pos[of "- bitlen m"] pow2_pos[of "bitlen m"]
    by (metis mult.assoc mult.right_neutral mult_le_cancel_left_pos)
  thus ?thesis using False by (simp add: exponent_def m_def)
qed

lemma exponent_upper:
  assumes "0 < x"
  shows "x < pow2 (exponent x + 1)"
proof (cases "1 \<le> x")
  case True
  hence m: "0 < \<lfloor>x\<rfloor>" by simp
  have "x < of_int (\<lfloor>x\<rfloor> + 1)" by simp
  also have "\<dots> \<le> pow2 (bitlen \<lfloor>x\<rfloor>)" by (rule bitlen_upper[OF m])
  finally show ?thesis using True by (simp add: exponent_def)
next
  case False
  define m where "m = \<lceil>1 / x\<rceil> - 1"
  from False assms have "1 < 1 / x" by simp
  hence "1 < \<lceil>1 / x\<rceil>" by (simp add: less_ceiling_iff)
  hence m: "0 < m" by (simp add: m_def)
  have "pow2 (bitlen m - 1) \<le> of_int m" by (rule bitlen_lower[OF m])
  also have "of_int m < 1 / x" unfolding m_def by linarith
  finally have "pow2 (bitlen m - 1) < 1 / x" .
  hence "pow2 (bitlen m - 1) * x < 1" using assms by (simp add: field_simps)
  moreover have "pow2 (1 - bitlen m) * pow2 (bitlen m - 1) = 1"
    using pow2_add[of "1 - bitlen m" "bitlen m - 1"] by (simp add: pow2_0)
  ultimately have "x < pow2 (1 - bitlen m)"
    using pow2_pos[of "1 - bitlen m"] pow2_pos[of "bitlen m - 1"]
    by (metis mult.assoc mult.right_neutral mult_less_cancel_left_pos)
  thus ?thesis using False by (simp add: exponent_def m_def add.commute)
qed

lemma exponent_unique:
  assumes "pow2 e \<le> x" and "x < pow2 (e + 1)"
  shows "exponent x = e"
proof -
  have x: "0 < x" using assms(1) pow2_pos[of e] by linarith
  have "pow2 e < pow2 (exponent x + 1)" using assms(1) exponent_upper[OF x] by linarith
  moreover have "pow2 (exponent x) < pow2 (e + 1)" using assms(2) exponent_lower[OF x] by linarith
  ultimately show ?thesis by (simp add: pow2_less_iff)
qed

lemma round_half_even_floor: "\<lfloor>y\<rfloor> \<le> round_half_even y"
  by (simp add: round_half_even_def Let_def)

lemma round_half_even_ceiling: "round_half_even y \<le> \<lfloor>y\<rfloor> + 1"
  by (simp add: round_half_even_def Let_def)

lemma round_half_even_of_int: "round_half_even (of_int n) = n"
  by (simp add: round_half_even_def Let_def)

lemma round_half_even_near: "\<bar>of_int (round_half_even y) - y\<bar> \<le> 1 / 2"
  unfolding round_half_even_def Let_def by (auto simp: abs_le_iff)

lemma round_half_even_mono:
  assumes "x \<le> y"
  shows "round_half_even x \<le> round_half_even y"
proof (cases "\<lfloor>x\<rfloor> = \<lfloor>y\<rfloor>")
  case True
  thus ?thesis using assms unfolding round_half_even_def Let_def by auto
next
  case False
  hence "\<lfloor>x\<rfloor> + 1 \<le> \<lfloor>y\<rfloor>" using floor_mono[OF assms] by linarith
  thus ?thesis using round_half_even_ceiling[of x] round_half_even_floor[of y] by linarith
qed


lemma binade_upper: "0 < x \<Longrightarrow> x < pow2 (binade x + 1)"
  using exponent_upper[of x] pow2_mono[of "exponent x + 1" "binade x + 1"]
  by (simp add: binade_def)

lemma binade_lower: "0 < x \<Longrightarrow> - 1022 < binade x \<Longrightarrow> pow2 (binade x) \<le> x"
  using exponent_lower[of x] by (simp add: binade_def max_def split: if_splits)

lemma binade_mono:
  assumes "0 < x" and "x \<le> y"
  shows "binade x \<le> binade y"
proof (rule ccontr)
  assume "\<not> binade x \<le> binade y"
  hence less: "binade y + 1 \<le> binade x" by simp
  have "- 1022 \<le> binade y" by (simp add: binade_def)
  hence "pow2 (binade x) \<le> x" using less assms(1) by (intro binade_lower) simp_all
  moreover have "y < pow2 (binade y + 1)" using assms by (intro binade_upper) simp
  moreover have "pow2 (binade y + 1) \<le> pow2 (binade x)" by (rule pow2_mono[OF less])
  ultimately show False using assms(2) by linarith
qed

lemma quantum_pos: "0 < quantum x"
  by (simp add: quantum_def pow2_pos)

lemma quantum_times: "quantum x * pow2 e = pow2 (binade x + (e - 52))"
  using pow2_add[of "binade x - 52" e] by (simp add: quantum_def algebra_simps)

lemma pow2_numeral: "pow2 52 = 4503599627370496" "pow2 53 = 9007199254740992"
  by (simp_all add: pow2_def)

lemma binary64_zero: "binary64 0 = 0"
  by (simp add: binary64_def)

lemma binary64_pos:
  "0 < x \<Longrightarrow> binary64 x = quantum x * of_int (round_half_even (x / quantum x))"
  by (simp add: binary64_def)

lemma binary64_nonneg:
  assumes "0 \<le> x"
  shows "0 \<le> binary64 x"
proof (cases "x = 0")
  case True
  thus ?thesis by (simp add: binary64_zero)
next
  case False
  hence x: "0 < x" using assms by simp
  have "0 \<le> x / quantum x" using x quantum_pos[of x] by simp
  hence "0 \<le> \<lfloor>x / quantum x\<rfloor>" by simp
  hence "0 \<le> round_half_even (x / quantum x)"
    using round_half_even_floor[of "x / quantum x"] by linarith
  thus ?thesis using quantum_pos[of x] by (simp add: binary64_pos[OF x])
qed

lemma binary64_near:
  assumes "0 \<le> x"
  shows "\<bar>binary64 x - x\<bar> \<le> quantum x / 2"
proof (cases "x = 0")
  case True
  thus ?thesis using quantum_pos[of 0] by (simp add: binary64_zero)
next
  case False
  hence x: "0 < x" using assms by simp
  define q where "q = quantum x"
  have q: "0 < q" by (simp add: q_def quantum_pos)
  have "binary64 x - x = q * (of_int (round_half_even (x / q)) - x / q)"
    using q by (simp add: binary64_pos[OF x] q_def algebra_simps)
  hence "\<bar>binary64 x - x\<bar> = q * \<bar>of_int (round_half_even (x / q)) - x / q\<bar>"
    using q by (simp add: abs_mult)
  also have "\<dots> \<le> q * (1 / 2)"
    using round_half_even_near[of "x / q"] q by (intro mult_left_mono) simp_all
  finally show ?thesis by (simp add: q_def)
qed

lemma binary64_upper:
  assumes x: "0 < x"
  shows "binary64 x \<le> pow2 (binade x + 1)"
proof -
  have "x < quantum x * pow2 53" using binade_upper[OF x] by (simp add: quantum_times)
  hence "x / quantum x \<le> of_int 9007199254740992"
    using quantum_pos[of x] by (simp add: field_simps pow2_numeral)
  hence "round_half_even (x / quantum x) \<le> 9007199254740992"
    using round_half_even_mono round_half_even_of_int by metis
  hence "real_of_int (round_half_even (x / quantum x)) \<le> pow2 53"
    by (simp add: pow2_numeral)
  hence "binary64 x \<le> quantum x * pow2 53"
    using quantum_pos[of x] by (simp add: binary64_pos[OF x])
  thus ?thesis by (simp add: quantum_times)
qed

lemma binary64_lower:
  assumes x: "0 < x" and normal: "- 1022 < binade x"
  shows "pow2 (binade x) \<le> binary64 x"
proof -
  have "quantum x * pow2 52 \<le> x" using binade_lower[OF x normal] by (simp add: quantum_times)
  hence "of_int 4503599627370496 \<le> x / quantum x"
    using quantum_pos[of x] by (simp add: field_simps pow2_numeral)
  hence "4503599627370496 \<le> round_half_even (x / quantum x)"
    using round_half_even_mono round_half_even_of_int by metis
  hence "pow2 52 \<le> real_of_int (round_half_even (x / quantum x))"
    by (simp add: pow2_numeral)
  hence "quantum x * pow2 52 \<le> binary64 x"
    using quantum_pos[of x] by (simp add: binary64_pos[OF x])
  thus ?thesis by (simp add: quantum_times)
qed

lemma binary64_mono:
  assumes "0 \<le> x" and "x \<le> y"
  shows "binary64 x \<le> binary64 y"
proof (cases "x = 0")
  case True
  thus ?thesis using assms binary64_nonneg[of y] by (simp add: binary64_zero)
next
  case False
  hence x: "0 < x" using assms by simp
  hence y: "0 < y" using assms by simp
  show ?thesis
  proof (cases "binade x = binade y")
    case True
    hence q: "quantum y = quantum x" by (simp add: quantum_def)
    have "x / quantum x \<le> y / quantum x"
      using assms(2) quantum_pos[of x] by (simp add: divide_right_mono)
    hence "round_half_even (x / quantum x) \<le> round_half_even (y / quantum x)"
      by (rule round_half_even_mono)
    thus ?thesis using quantum_pos[of x] by (simp add: binary64_pos[OF x] binary64_pos[OF y] q)
  next
    case False
    hence less: "binade x + 1 \<le> binade y" using binade_mono[OF x assms(2)] by simp
    have "- 1022 \<le> binade x" by (simp add: binade_def)
    hence normal: "- 1022 < binade y" using less by simp
    have "binary64 x \<le> pow2 (binade x + 1)" by (rule binary64_upper[OF x])
    also have "\<dots> \<le> pow2 (binade y)" by (rule pow2_mono[OF less])
    also have "\<dots> \<le> binary64 y" by (rule binary64_lower[OF y normal])
    finally show ?thesis .
  qed
qed

lemma binary64_one: "binary64 1 = 1"
  by (simp add: binary64_def quantum_def binade_def exponent_def compute_bitlen pow2_def
      round_half_even_def Let_def)

lemma binary64_unit: "0 \<le> x \<Longrightarrow> x \<le> 1 \<Longrightarrow> 0 \<le> binary64 x \<and> binary64 x \<le> 1"
  using binary64_mono[of x 1] binary64_nonneg[of x] by (simp add: binary64_one)


text \<open>The percentages of the closed examples, as floats.\<close>

lemma fdiv_zero: "fdiv 0 b = 0"
  by (simp add: fdiv_def binary64_zero)

lemma fdiv_80_100: "fdiv 80 100 = 3602879701896397 / 4503599627370496"
  by (simp add: fdiv_def binary64_def quantum_def binade_def exponent_def compute_bitlen pow2_def
      round_half_even_def Let_def)

lemma binary64_half: "binary64 (1 / 2) = 1 / 2"
  by (simp add: binary64_def quantum_def binade_def exponent_def compute_bitlen pow2_def
      round_half_even_def Let_def)

lemma fdiv_50_100: "fdiv 50 100 = 1 / 2"
  by (simp add: fdiv_def binary64_half)

section \<open>Properties of the estimator\<close>

lemma float_of_int_ge_one: "1 \<le> i \<Longrightarrow> 1 \<le> float_of_int i"
  using binary64_mono[of 1 "of_int i"] by (simp add: float_of_int_def binary64_one)

lemma float_of_int_mono: "0 \<le> k \<Longrightarrow> k \<le> i \<Longrightarrow> float_of_int k \<le> float_of_int i"
  using binary64_mono[of "of_int k" "of_int i"] by (simp add: float_of_int_def)

lemma float_of_int_nonneg: "0 \<le> k \<Longrightarrow> 0 \<le> float_of_int k"
  using binary64_nonneg[of "of_int k"] by (simp add: float_of_int_def)

lemma fsub_unit: "0 \<le> d \<Longrightarrow> d \<le> 1 \<Longrightarrow> 0 \<le> fsub 1 d \<and> fsub 1 d \<le> 1"
  using binary64_unit[of "1 - d"] by (simp add: fsub_def)

lemma fmul_unit:
  assumes "0 \<le> a" "a \<le> 1" "0 \<le> b" "b \<le> 1"
  shows "0 \<le> fmul a b \<and> fmul a b \<le> 1"
proof -
  have "a * b \<le> 1" using assms by (simp add: mult_le_one)
  thus ?thesis using assms binary64_unit[of "a * b"] by (simp add: fmul_def)
qed

lemma miss_unit:
  assumes "0 \<le> k" "k \<le> i" "1 \<le> i"
  shows "0 \<le> miss k i \<and> miss k i \<le> 1"
proof -
  have "0 \<le> float_of_int k" "float_of_int k \<le> float_of_int i" "0 < float_of_int i"
    using assms float_of_int_nonneg float_of_int_mono float_of_int_ge_one[of i] by simp_all
  hence "0 \<le> float_of_int k / float_of_int i" "float_of_int k / float_of_int i \<le> 1"
    by simp_all
  hence "0 \<le> fdiv (float_of_int k) (float_of_int i) \<and> fdiv (float_of_int k) (float_of_int i) \<le> 1"
    unfolding fdiv_def by (rule binary64_unit)
  thus ?thesis unfolding miss_def by (intro fsub_unit) simp_all
qed

lemma misses_unit:
  assumes "0 \<le> k" "k \<le> n - c"
  shows "\<forall>x \<in> set (map (miss k) [n - c + 1..n]). 0 \<le> x \<and> x \<le> 1"
proof
  fix x
  assume "x \<in> set (map (miss k) [n - c + 1..n])"
  then obtain i where "x = miss k i" "n - c + 1 \<le> i" by auto
  thus "0 \<le> x \<and> x \<le> 1" using assms miss_unit[of k i] by simp
qed

lemma foldl_fmul_unit:
  "\<forall>x \<in> set xs. 0 \<le> x \<and> x \<le> 1 \<Longrightarrow> 0 \<le> p \<Longrightarrow> p \<le> 1 \<Longrightarrow>
     0 \<le> foldl fmul p xs \<and> foldl fmul p xs \<le> 1"
proof (induction xs arbitrary: p)
  case Nil
  thus ?case by simp
next
  case (Cons x xs)
  have "0 \<le> fmul p x \<and> fmul p x \<le> 1" using Cons.prems by (intro fmul_unit) simp_all
  thus ?case using Cons.prems Cons.IH[of "fmul p x"] by simp
qed

lemma foldl_fmul_mono:
  "\<forall>x \<in> set xs. 0 \<le> x \<Longrightarrow> 0 \<le> p \<Longrightarrow> p \<le> p' \<Longrightarrow>
     foldl fmul p xs \<le> foldl fmul p' xs"
proof (induction xs arbitrary: p p')
  case Nil
  thus ?case by simp
next
  case (Cons x xs)
  have x: "0 \<le> x" using Cons.prems by simp
  have "0 \<le> p * x" "p * x \<le> p' * x" using Cons.prems x by (simp_all add: mult_right_mono)
  hence "0 \<le> fmul p x" "fmul p x \<le> fmul p' x"
    unfolding fmul_def by (simp_all add: binary64_nonneg binary64_mono)
  thus ?case using Cons.prems Cons.IH[of "fmul p x" "fmul p' x"] by simp
qed

lemma get_pass_at_k_eq:
  "get_pass_at_k n c k =
     (if n - c < k then 1 else fsub 1 (foldl fmul 1 (map (miss k) [n - c + 1..n])))"
  by (simp add: get_pass_at_k_def np_prod_def arange_def o_def miss_def[abs_def])

lemma get_pass_at_k_unit:
  assumes "0 \<le> k"
  shows "0 \<le> get_pass_at_k n c k \<and> get_pass_at_k n c k \<le> 1"
proof (cases "n - c < k")
  case True
  thus ?thesis by (simp add: get_pass_at_k_eq)
next
  case False
  hence "0 \<le> foldl fmul 1 (map (miss k) [n - c + 1..n])
      \<and> foldl fmul 1 (map (miss k) [n - c + 1..n]) \<le> 1"
    using assms by (intro foldl_fmul_unit misses_unit) simp_all
  hence "0 \<le> fsub 1 (foldl fmul 1 (map (miss k) [n - c + 1..n]))
      \<and> fsub 1 (foldl fmul 1 (map (miss k) [n - c + 1..n])) \<le> 1"
    by (intro fsub_unit) simp_all
  thus ?thesis using False by (simp add: get_pass_at_k_eq)
qed

lemma get_pass_at_k_none: "k \<le> n \<Longrightarrow> get_pass_at_k n 0 k = 0"
  by (simp add: get_pass_at_k_eq fsub_def binary64_zero)

lemma get_pass_at_k_le:
  assumes k: "0 \<le> k" and c: "0 \<le> c1" "c1 \<le> c2"
  shows "get_pass_at_k n c1 k \<le> get_pass_at_k n c2 k"
proof (cases "n - c2 < k")
  case True
  thus ?thesis using get_pass_at_k_unit[OF k, of n c1] by (simp add: get_pass_at_k_eq)
next
  case False
  hence else1: "\<not> n - c1 < k" using c by simp
  define early where "early = map (miss k) [n - c2 + 1..n - c1]"
  define late where "late = map (miss k) [n - c1 + 1..n]"
  have "[n - c2 + 1..n] = [n - c2 + 1..n - c1] @ [n - c1 + 1..n]"
  proof (cases "c1 = c2")
    case True
    thus ?thesis by simp
  next
    case False
    thus ?thesis using c by (intro upto_split2) simp_all
  qed
  hence whole: "map (miss k) [n - c2 + 1..n] = early @ late"
    by (simp add: early_def late_def)
  have early: "\<forall>x \<in> set early. 0 \<le> x \<and> x \<le> 1"
  proof
    fix x
    assume "x \<in> set early"
    then obtain i where "x = miss k i" "n - c2 + 1 \<le> i" by (auto simp: early_def)
    thus "0 \<le> x \<and> x \<le> 1" using k False miss_unit[of k i] by simp
  qed
  have late: "\<forall>x \<in> set late. 0 \<le> x \<and> x \<le> 1"
    unfolding late_def using k else1 by (intro misses_unit) simp_all
  have p: "0 \<le> foldl fmul 1 early \<and> foldl fmul 1 early \<le> 1"
    using early by (intro foldl_fmul_unit) simp_all
  have "foldl fmul (foldl fmul 1 early) late \<le> foldl fmul 1 late"
    using late p by (intro foldl_fmul_mono) simp_all
  moreover have "0 \<le> foldl fmul 1 late \<and> foldl fmul 1 late \<le> 1"
    using late by (intro foldl_fmul_unit) simp_all
  ultimately have "fsub 1 (foldl fmul 1 late) \<le> fsub 1 (foldl fmul (foldl fmul 1 early) late)"
    unfolding fsub_def by (intro binary64_mono) simp_all
  thus ?thesis using False else1 by (simp add: get_pass_at_k_eq whole late_def)
qed


lemma binary64_minus: "binary64 (- x) = - binary64 x"
  by (simp add: binary64_def sgn_minus)

lemma binary64_exact:
  assumes "0 < v" and "v = quantum v * of_int m"
  shows "binary64 v = v"
proof -
  have "v / quantum v = of_int m"
    using assms(2) quantum_pos[of v] by (metis less_irrefl nonzero_mult_div_cancel_left)
  thus ?thesis using assms by (simp add: binary64_pos round_half_even_of_int)
qed

lemma binade_unique:
  assumes "0 < v" "v < pow2 (b + 1)" "- 1022 < b \<longrightarrow> pow2 b \<le> v" "- 1022 \<le> b"
  shows "binade v = b"
proof (cases "- 1022 < b")
  case True
  hence "exponent v = b" using assms by (intro exponent_unique) simp_all
  thus ?thesis using True by (simp add: binade_def)
next
  case False
  hence b: "b = - 1022" using assms(4) by simp
  have "pow2 (exponent v) < pow2 (b + 1)" using exponent_lower[OF assms(1)] assms(2) by linarith
  hence "exponent v \<le> - 1022" using b by (simp add: pow2_less_iff)
  thus ?thesis using b by (simp add: binade_def)
qed

lemma binary64_idem_pos:
  assumes x: "0 < x"
  shows "binary64 (binary64 x) = binary64 x"
proof -
  define v where "v = binary64 x"
  define b where "b = binade x"
  have b: "- 1022 \<le> b" by (simp add: b_def binade_def)
  have upper: "v \<le> pow2 (b + 1)" unfolding v_def b_def by (rule binary64_upper[OF x])
  have lower: "- 1022 < b \<longrightarrow> pow2 b \<le> v"
    unfolding v_def b_def using binary64_lower[OF x] by simp
  have v0: "0 \<le> v" unfolding v_def using x by (intro binary64_nonneg) simp
  consider "v = 0" | "0 < v" "v < pow2 (b + 1)" | "v = pow2 (b + 1)"
    using v0 upper by linarith
  hence "binary64 v = v"
  proof cases
    case 1
    thus ?thesis by (simp add: binary64_zero)
  next
    case 2
    hence "binade v = b" using lower b by (intro binade_unique) simp_all
    hence "quantum v = quantum x" by (simp add: quantum_def b_def)
    hence "v = quantum v * of_int (round_half_even (x / quantum x))"
      by (simp add: v_def binary64_pos[OF x])
    thus ?thesis using 2(1) by (intro binary64_exact)
  next
    case 3
    have "pow2 (b + 1) < pow2 (b + 1 + 1)" by (simp add: pow2_less_iff)
    hence "binade v = b + 1" using 3 b pow2_pos[of "b + 1"] by (intro binade_unique) simp_all
    hence "quantum v * pow2 52 = v" using 3 by (simp add: quantum_times)
    hence eq: "v = quantum v * of_int 4503599627370496" by (simp add: pow2_numeral)
    have "0 < v" using 3 pow2_pos[of "b + 1"] by simp
    thus ?thesis using eq by (rule binary64_exact)
  qed
  thus ?thesis by (simp add: v_def)
qed

lemma binary64_idem: "binary64 (binary64 x) = binary64 x"
proof -
  consider "x < 0" | "x = 0" | "0 < x" by linarith
  thus ?thesis
  proof cases
    case 1
    hence "binary64 (binary64 (- x)) = binary64 (- x)" by (intro binary64_idem_pos) simp
    thus ?thesis by (simp add: binary64_minus)
  next
    case 2
    thus ?thesis by (simp add: binary64_zero)
  next
    case 3
    thus ?thesis by (rule binary64_idem_pos)
  qed
qed

lemma fmul_one: "fmul 1 (binary64 x) = binary64 x"
  by (simp add: fmul_def binary64_idem)

lemma float_of_int_exact:
  assumes "0 \<le> n" "n \<le> 2 ^ 53"
  shows "float_of_int n = of_int n"
proof (cases "n = 0")
  case True
  thus ?thesis by (simp add: float_of_int_def binary64_zero)
next
  case False
  define x :: real where "x = of_int n"
  define b where "b = binade x"
  have x: "0 < x" "1 \<le> x" "x \<le> pow2 53" using assms False by (simp_all add: x_def pow2_numeral)
  have "pow2 0 < pow2 (b + 1)" using x(2) binade_upper[OF x(1)] by (simp add: pow2_0 b_def)
  hence b0: "0 \<le> b" by (simp add: pow2_less_iff)
  hence "pow2 b \<le> x" unfolding b_def using x(1) by (intro binade_lower) simp_all
  hence "pow2 b \<le> pow2 53" using x(3) by linarith
  hence b53: "b \<le> 53" by (simp add: pow2_le_iff)
  have "\<exists>m. x = quantum x * of_int m"
  proof (cases "b = 53")
    case True
    hence "pow2 53 \<le> x" using \<open>pow2 b \<le> x\<close> by simp
    hence "x = pow2 53" using x(3) by simp
    moreover have "quantum x * pow2 52 = pow2 53" using True by (simp add: quantum_times b_def)
    ultimately have "x = quantum x * of_int 4503599627370496" by (simp add: pow2_numeral)
    thus ?thesis ..
  next
    case False
    hence "0 \<le> 52 - b" using b53 by simp
    hence "pow2 (52 - b) = of_int (2 ^ nat (52 - b))" by (simp add: pow2_def)
    moreover have "quantum x * pow2 (52 - b) = 1"
      using quantum_times[of x "52 - b"] by (simp add: b_def pow2_0)
    ultimately have "x = quantum x * of_int (2 ^ nat (52 - b) * n)"
      by (simp add: x_def mult.assoc[symmetric])
    thus ?thesis ..
  qed
  then obtain m where "x = quantum x * of_int m" ..
  hence "binary64 x = x" using x(1) by (intro binary64_exact)
  thus ?thesis by (simp add: float_of_int_def x_def)
qed

lemma binary64_near_unit:
  assumes "0 \<le> x" "x \<le> 1"
  shows "\<bar>binary64 x - x\<bar> \<le> 1 / 2 ^ 54"
proof (cases "x = 0 \<or> x = 1")
  case True
  thus ?thesis by (auto simp: binary64_zero binary64_one)
next
  case False
  hence x: "0 < x" "x < 1" using assms by simp_all
  have "pow2 (exponent x) < pow2 0" using exponent_lower[OF x(1)] x(2) by (simp add: pow2_0)
  hence "exponent x < 0" by (simp add: pow2_less_iff)
  hence "binade x - 52 \<le> - 53" by (simp add: binade_def)
  hence "quantum x \<le> pow2 (- 53)" unfolding quantum_def by (rule pow2_mono)
  hence "quantum x / 2 \<le> 1 / 2 ^ 54" by (simp add: pow2_def)
  thus ?thesis using binary64_near[OF assms(1)] by linarith
qed

lemma miss_near:
  assumes "0 \<le> k" "k \<le> i" "1 \<le> i" "i \<le> 2 ^ 53"
  shows "\<bar>miss k i - (1 - of_int k / of_int i)\<bar> \<le> 2 / 2 ^ 54"
proof -
  define r :: real where "r = of_int k / of_int i"
  define d where "d = binary64 r"
  have r: "0 \<le> r" "r \<le> 1" using assms by (simp_all add: r_def)
  have d: "0 \<le> d \<and> d \<le> 1" unfolding d_def using r by (rule binary64_unit)
  have "float_of_int k = of_int k" "float_of_int i = of_int i"
    using assms by (simp_all add: float_of_int_exact)
  hence m: "miss k i = binary64 (1 - d)" by (simp add: miss_def fdiv_def fsub_def d_def r_def)
  have "\<bar>d - r\<bar> \<le> 1 / 2 ^ 54" unfolding d_def using r by (rule binary64_near_unit)
  moreover have "\<bar>binary64 (1 - d) - (1 - d)\<bar> \<le> 1 / 2 ^ 54"
    using d by (intro binary64_near_unit) simp_all
  ultimately show ?thesis unfolding m r_def[symmetric] by linarith
qed

lemma foldl_fmul_near:
  "\<forall>i \<in> set is. k \<le> i \<and> 1 \<le> i \<and> i \<le> 2 ^ 53 \<Longrightarrow> 0 \<le> k \<Longrightarrow>
   0 \<le> p \<Longrightarrow> p \<le> 1 \<Longrightarrow> 0 \<le> q \<Longrightarrow> q \<le> 1 \<Longrightarrow> \<bar>p - q\<bar> \<le> E \<Longrightarrow>
     \<bar>foldl fmul p (map (miss k) is)
        - q * prod_list (map (\<lambda>i. 1 - of_int k / of_int i) is)\<bar>
       \<le> E + 3 * real (length is) / 2 ^ 54"
proof (induction "is" arbitrary: p q E)
  case Nil
  thus ?case by simp
next
  case (Cons i "is")
  define f where "f = miss k i"
  define g :: real where "g = 1 - of_int k / of_int i"
  have i: "k \<le> i" "1 \<le> i" "i \<le> 2 ^ 53" using Cons.prems(1) by simp_all
  have f: "0 \<le> f \<and> f \<le> 1" unfolding f_def using Cons.prems(2) i by (intro miss_unit)
  have g: "0 \<le> g" "g \<le> 1" using Cons.prems(2) i by (simp_all add: g_def)
  have fg: "\<bar>f - g\<bar> \<le> 2 / 2 ^ 54"
    unfolding f_def g_def using Cons.prems(2) i by (intro miss_near)
  have pf: "0 \<le> p * f" "p * f \<le> 1" using Cons.prems f by (simp_all add: mult_le_one)
  have p': "0 \<le> fmul p f \<and> fmul p f \<le> 1" using Cons.prems f by (intro fmul_unit) simp_all
  have q': "0 \<le> q * g" "q * g \<le> 1" using Cons.prems g by (simp_all add: mult_le_one)
  have "p * f - q * g = (p - q) * f + q * (f - g)" by (simp add: algebra_simps)
  hence "\<bar>p * f - q * g\<bar> \<le> \<bar>p - q\<bar> * f + q * \<bar>f - g\<bar>"
    using f Cons.prems(5) by (metis abs_mult abs_of_nonneg abs_triangle_ineq)
  also have "\<bar>p - q\<bar> * f \<le> E * 1"
    using Cons.prems(7) f by (intro mult_mono) simp_all
  also have "q * \<bar>f - g\<bar> \<le> 1 * (2 / 2 ^ 54)"
    using Cons.prems(5,6) fg by (intro mult_mono) simp_all
  finally have "\<bar>p * f - q * g\<bar> \<le> E + 2 / 2 ^ 54" by simp
  moreover have "\<bar>fmul p f - p * f\<bar> \<le> 1 / 2 ^ 54"
    unfolding fmul_def using pf by (intro binary64_near_unit)
  ultimately have step: "\<bar>fmul p f - q * g\<bar> \<le> E + 3 / 2 ^ 54" by linarith
  have "\<bar>foldl fmul (fmul p f) (map (miss k) is)
        - q * g * prod_list (map (\<lambda>i. 1 - of_int k / of_int i) is)\<bar>
       \<le> (E + 3 / 2 ^ 54) + 3 * real (length is) / 2 ^ 54"
    using Cons.prems(1,2) p' q' step by (intro Cons.IH) simp_all
  thus ?case by (simp add: f_def g_def algebra_simps add_divide_distrib)
qed

lemma get_pass_at_k_near:
  assumes "0 \<le> k" "0 \<le> c" "n \<le> 2 ^ 53"
  shows "\<bar>get_pass_at_k n c k - estimate n c k\<bar> \<le> (3 * of_int c + 1) / 2 ^ 54"
proof (cases "n - c < k")
  case True
  thus ?thesis using assms(2) by (simp add: get_pass_at_k_eq estimate_def)
next
  case False
  define P where "P = foldl fmul 1 (map (miss k) [n - c + 1..n])"
  define Q :: real where "Q = prod_list (map (\<lambda>i. 1 - of_int k / of_int i) [n - c + 1..n])"
  have len: "real (length [n - c + 1..n]) = of_int c" using assms(2) by simp
  have "\<forall>i \<in> set [n - c + 1..n]. k \<le> i \<and> 1 \<le> i \<and> i \<le> 2 ^ 53"
    using False assms by auto
  hence "\<bar>P - 1 * Q\<bar> \<le> 0 + 3 * real (length [n - c + 1..n]) / 2 ^ 54"
    unfolding P_def Q_def using assms(1) by (intro foldl_fmul_near) simp_all
  hence PQ: "\<bar>P - Q\<bar> \<le> 3 * of_int c / 2 ^ 54" using len by simp
  have "0 \<le> P \<and> P \<le> 1"
    unfolding P_def using assms(1) False by (intro foldl_fmul_unit misses_unit) simp_all
  hence "\<bar>binary64 (1 - P) - (1 - P)\<bar> \<le> 1 / 2 ^ 54" by (intro binary64_near_unit) simp_all
  hence "\<bar>fsub 1 P - (1 - Q)\<bar> \<le> 3 * of_int c / 2 ^ 54 + 1 / 2 ^ 54"
    unfolding fsub_def using PQ by linarith
  thus ?thesis
    using False by (simp add: get_pass_at_k_eq estimate_def P_def Q_def add_divide_distrib)
qed

lemma get_pass_at_k_5_1_1: "get_pass_at_k 5 1 1 = 1801439850948198 / 9007199254740992"
  by (simp add: get_pass_at_k_eq miss_def fsub_def fdiv_def fmul_def float_of_int_def upto.simps
      binary64_def quantum_def binade_def exponent_def compute_bitlen pow2_def
      round_half_even_def Let_def)

lemma estimate_5_1_1: "estimate 5 1 1 = 1 / 5"
  by (simp add: estimate_def upto.simps)

text \<open>
  Claim C1. For integers \<open>n \<ge> 1\<close>, \<open>0 \<le> c \<le> n\<close> and \<open>k \<ge> 1\<close>, with the bounds of
  \<open>np.arange\<close> in int64, \<open>get_pass_at_k n c k\<close> is exactly 1 when \<open>n - c < k\<close>. Otherwise it
  is the formula \<open>1 - (\<Prod>i = n-c+1..n. 1 - k/i)\<close> as float64 evaluates it: every quotient,
  difference and product rounded, the product taken from left to right. For \<open>n \<le> 2 ^ 53\<close>
  this is within \<open>(3 c + 1) / 2 ^ 54\<close> of the exact value of the formula. The result lies
  in \<open>[0, 1]\<close>, is 1 when \<open>c = n\<close>, and is 0 when \<open>c = 0\<close> and \<open>k \<le> n\<close>.
\<close>

theorem get_pass_at_k_spec:
  assumes "1 \<le> n" and "0 \<le> c" and "c \<le> n" and "1 \<le> k" and "n + 1 < 2 ^ 63"
  shows "(n - c < k \<longrightarrow> get_pass_at_k n c k = 1)
       \<and> (\<not> n - c < k \<longrightarrow>
            get_pass_at_k n c k
              = fsub 1 (foldl fmul 1
                  (map (\<lambda>i. fsub 1 (fdiv (float_of_int k) (float_of_int i))) [n - c + 1..n])))
       \<and> (n \<le> 2 ^ 53 \<longrightarrow>
            \<bar>get_pass_at_k n c k - estimate n c k\<bar> \<le> (3 * of_int c + 1) / 2 ^ 54)
       \<and> 0 \<le> get_pass_at_k n c k \<and> get_pass_at_k n c k \<le> 1
       \<and> (c = n \<longrightarrow> get_pass_at_k n c k = 1)
       \<and> (c = 0 \<and> k \<le> n \<longrightarrow> get_pass_at_k n c k = 0)"
proof -
  have k: "0 \<le> k" using assms(4) by simp
  have a: "n - c < k \<longrightarrow> get_pass_at_k n c k = 1"
    by (simp add: get_pass_at_k_eq)
  have b: "\<not> n - c < k \<longrightarrow>
      get_pass_at_k n c k
        = fsub 1 (foldl fmul 1
            (map (\<lambda>i. fsub 1 (fdiv (float_of_int k) (float_of_int i))) [n - c + 1..n]))"
    by (simp add: get_pass_at_k_eq miss_def[abs_def])
  have d: "n \<le> 2 ^ 53 \<longrightarrow>
      \<bar>get_pass_at_k n c k - estimate n c k\<bar> \<le> (3 * of_int c + 1) / 2 ^ 54"
    using get_pass_at_k_near[OF k assms(2)] by blast
  have e: "0 \<le> get_pass_at_k n c k \<and> get_pass_at_k n c k \<le> 1"
    by (rule get_pass_at_k_unit[OF k])
  have f: "c = n \<longrightarrow> get_pass_at_k n c k = 1"
    using assms(4) by (simp add: get_pass_at_k_eq)
  have g: "c = 0 \<and> k \<le> n \<longrightarrow> get_pass_at_k n c k = 0"
    using get_pass_at_k_none by blast
  from a b d e f g show ?thesis by blast
qed

theorem get_pass_at_k_spec_witness:
  "(1::int) \<le> 5 \<and> (0::int) \<le> 1 \<and> (1::int) \<le> 5 \<and> (1::int) \<le> 1 \<and> (5::int) + 1 < 2 ^ 63
   \<and> get_pass_at_k 5 1 1 = fsub 1 (foldl fmul 1 [fsub 1 (fdiv (float_of_int 1) (float_of_int 5))])
   \<and> get_pass_at_k 5 1 1 = 1801439850948198 / 9007199254740992
   \<and> \<bar>get_pass_at_k 5 1 1 - estimate 5 1 1\<bar> \<le> 4 / 2 ^ 54
   \<and> 0 \<le> get_pass_at_k 5 1 1 \<and> get_pass_at_k 5 1 1 \<le> 1
   \<and> get_pass_at_k 5 1 5 = 1 \<and> get_pass_at_k 5 5 2 = 1 \<and> get_pass_at_k 5 0 5 = 0"
proof -
  have u: "[5 .. 5 :: int] = [5]" by (simp add: upto.simps)
  have h: "(1::int) \<le> 5" "(0::int) \<le> 1" "(1::int) \<le> 5" "(1::int) \<le> 1" "(5::int) + 1 < 2 ^ 63"
    by simp_all
  note spec = get_pass_at_k_spec [OF h]
  from spec [THEN conjunct2, THEN conjunct1]
  have v: "get_pass_at_k 5 1 1
      = fsub 1 (foldl fmul 1 [fsub 1 (fdiv (float_of_int 1) (float_of_int 5))])"
    by (simp add: u)
  have w: "get_pass_at_k 5 1 1 = 1801439850948198 / 9007199254740992"
    by (rule get_pass_at_k_5_1_1)
  from spec [THEN conjunct2, THEN conjunct2, THEN conjunct1]
  have n: "\<bar>get_pass_at_k 5 1 1 - estimate 5 1 1\<bar> \<le> 4 / 2 ^ 54" by simp
  from spec have r: "0 \<le> get_pass_at_k 5 1 1" "get_pass_at_k 5 1 1 \<le> 1" by blast+
  from get_pass_at_k_spec [of 5 1 5] have a: "get_pass_at_k 5 1 5 = 1" by simp
  from get_pass_at_k_spec [of 5 5 2] have b: "get_pass_at_k 5 5 2 = 1" by simp
  from get_pass_at_k_spec [of 5 0 5] have c: "get_pass_at_k 5 0 5 = 0" by simp
  show ?thesis by (intro conjI h v w n r a b c)
qed

text \<open>
  The exact value of the formula is not what the code returns: for 5 trials with 1 pass
  and \<open>k = 1\<close> the formula gives \<open>1/5\<close>, and the code the float \<open>0.19999999999999996\<close>, which
  is \<open>1801439850948198 / 2 ^ 53\<close>.
\<close>

theorem get_pass_at_k_rounds:
  "get_pass_at_k 5 1 1 = 1801439850948198 / 9007199254740992
   \<and> estimate 5 1 1 = 1 / 5
   \<and> get_pass_at_k 5 1 1 \<noteq> estimate 5 1 1"
  by (simp add: get_pass_at_k_5_1_1 estimate_5_1_1)

text \<open>
  Claim C9. For fixed \<open>n \<ge> 1\<close> and \<open>k \<ge> 1\<close>, with the bounds of \<open>np.arange\<close> in int64, the
  estimator is non-decreasing in \<open>c\<close>: \<open>0 \<le> c1 \<le> c2 \<le> n\<close> gives
  \<open>get_pass_at_k n c1 k \<le> get_pass_at_k n c2 k\<close>, for the floats that the code returns.
\<close>

theorem get_pass_at_k_mono:
  assumes "1 \<le> n" and "1 \<le> k" and "0 \<le> c1" and "c1 \<le> c2" and "c2 \<le> n"
    and "n + 1 < 2 ^ 63"
  shows "get_pass_at_k n c1 k \<le> get_pass_at_k n c2 k"
proof -
  have "0 \<le> k" using assms(2) by simp
  thus ?thesis using assms(3,4) by (rule get_pass_at_k_le)
qed

theorem get_pass_at_k_mono_witness:
  "(1::int) \<le> 5 \<and> (1::int) \<le> 1 \<and> (0::int) \<le> 1 \<and> (1::int) \<le> 3 \<and> (3::int) \<le> 5
   \<and> (5::int) + 1 < 2 ^ 63
   \<and> get_pass_at_k 5 1 1 \<le> get_pass_at_k 5 3 1"
proof -
  have h: "(1::int) \<le> 5" "(1::int) \<le> 1" "(0::int) \<le> 1" "(1::int) \<le> 3" "(3::int) \<le> 5"
    "(5::int) + 1 < 2 ^ 63"
    by simp_all
  from get_pass_at_k_mono [OF h] show ?thesis by simp
qed

section \<open>Splitting and joining lines\<close>

lemma split_not_Nil: "split sep s \<noteq> []"
  by (induction s) (auto split: list.splits)

lemma split_no_sep: "x \<in> set (split sep s) \<Longrightarrow> sep \<notin> set x"
proof (induction s arbitrary: x)
  case Nil
  then show ?case by simp
next
  case (Cons ch s)
  then show ?case by (auto split: if_splits list.splits)
qed

lemma split_plain: "sep \<notin> set x \<Longrightarrow> split sep x = [x]"
  by (induction x) auto

lemma split_at_sep: "sep \<notin> set x \<Longrightarrow> split sep (x @ sep # r) = x # split sep r"
  by (induction x) auto

lemma join_split: "join [sep] (split sep s) = s"
proof (induction s)
  case Nil
  then show ?case by simp
next
  case (Cons ch s)
  show ?case
  proof (cases "ch = sep")
    case True
    with Cons split_not_Nil [of sep s] show ?thesis
      by (cases "split sep s") auto
  next
    case False
    with Cons split_not_Nil [of sep s] show ?thesis
      by (cases "split sep s"; cases "tl (split sep s)") auto
  qed
qed

lemma split_join:
  "xs \<noteq> [] \<Longrightarrow> \<forall>x \<in> set xs. sep \<notin> set x \<Longrightarrow> split sep (join [sep] xs) = xs"
proof (induction "[sep]" xs rule: join.induct)
  case 1
  then show ?case by simp
next
  case (2 x)
  then show ?case by (simp add: split_plain)
next
  case (3 x y ys)
  then show ?case by (simp add: split_at_sep)
qed

lemma split_splice:
  assumes "0 \<le> start" and "start \<le> end'" and "end' < int (length (split newline src))"
  shows "split newline (splice_patch src pat start end')
           = take (nat start) (split newline src) @ split newline pat
               @ drop (nat end' + 1) (split newline src)"
proof -
  let ?ls = "take (nat start) (split newline src) @ split newline pat
               @ drop (nat end' + 1) (split newline src)"
  from assms have "nat (end' + 1) = nat end' + 1" by simp
  with assms have s: "splice_patch src pat start end' = join [newline] ?ls"
    by (simp add: splice_patch_def slice_to_def slice_from_def)
  have ne: "?ls \<noteq> []" using split_not_Nil [of newline pat] by simp
  have "\<forall>x \<in> set ?ls. newline \<notin> set x"
    by (auto dest: in_set_takeD in_set_dropD split_no_sep)
  from split_join [OF ne this] s show ?thesis by simp
qed

text \<open>
  Claim C7, amended. The replaced range is inclusive: for a span
  \<open>0 \<le> start \<le> end < number of source lines\<close>, the spliced text is the lines before
  index \<open>start\<close>, then the candidate's lines, then the lines after index \<open>end\<close>, joined
  by newlines, so that the lines \<open>start\<close> to \<open>end\<close>, both included, are replaced; and
  reading back as many lines as the candidate has, from line \<open>start\<close> of the spliced
  text, gives the candidate unchanged.
\<close>

theorem splice_round_trip:
  assumes "0 \<le> start" and "start \<le> end'" and "end' < int (length (split newline src))"
  shows "splice_patch src pat start end'
           = join [newline] (take (nat start) (split newline src) @ split newline pat
               @ drop (nat end' + 1) (split newline src))
       \<and> extract_lines (splice_patch src pat start end') start (length (split newline pat)) = pat"
proof -
  from assms have "nat (end' + 1) = nat end' + 1" by simp
  with assms have a: "splice_patch src pat start end'
      = join [newline] (take (nat start) (split newline src) @ split newline pat
               @ drop (nat end' + 1) (split newline src))"
    by (simp add: splice_patch_def slice_to_def slice_from_def)
  from assms have len: "length (take (nat start) (split newline src)) = nat start" by simp
  have "extract_lines (splice_patch src pat start end') start (length (split newline pat))
      = join [newline] (split newline pat)"
    unfolding extract_lines_def split_splice [OF assms] slice_from_def
    using assms(1) len by simp
  with a show ?thesis by (simp add: join_split)
qed

theorem splice_round_trip_witness:
  "(0::int) \<le> 1 \<and> (1::int) \<le> 2 \<and> 2 < int (length (split newline ''a\<newline>b\<newline>c\<newline>d''))
   \<and> splice_patch ''a\<newline>b\<newline>c\<newline>d'' ''X\<newline>Y\<newline>Z'' 1 2 = ''a\<newline>X\<newline>Y\<newline>Z\<newline>d''
   \<and> extract_lines (splice_patch ''a\<newline>b\<newline>c\<newline>d'' ''X\<newline>Y\<newline>Z'' 1 2) 1 3 = ''X\<newline>Y\<newline>Z''"
proof -
  have h: "(0::int) \<le> 1" "(1::int) \<le> 2" "2 < int (length (split newline ''a\<newline>b\<newline>c\<newline>d''))"
    by (simp_all add: newline_def)
  have len: "length (split newline ''X\<newline>Y\<newline>Z'') = 3"
    by (simp add: newline_def)
  note r = splice_round_trip [OF h, of "''X\<newline>Y\<newline>Z''", unfolded len]
  from r have a: "splice_patch ''a\<newline>b\<newline>c\<newline>d'' ''X\<newline>Y\<newline>Z'' 1 2 = ''a\<newline>X\<newline>Y\<newline>Z\<newline>d''"
    by (simp add: newline_def)
  from r have b: "extract_lines (splice_patch ''a\<newline>b\<newline>c\<newline>d'' ''X\<newline>Y\<newline>Z'' 1 2) 1 3
      = ''X\<newline>Y\<newline>Z''"
    by blast
  from h a b show ?thesis by blast
qed

text \<open>
  The claim as stated, with a half-open range, fails on a source of four lines with the
  span from 1 to 2: the line with index 2 is replaced as well.
\<close>

theorem splice_replaces_end_line:
  "splice_patch ''a\<newline>b\<newline>c\<newline>d'' ''X'' 1 2 = ''a\<newline>X\<newline>d''
   \<and> splice_half_open ''a\<newline>b\<newline>c\<newline>d'' ''X'' 1 2 = ''a\<newline>X\<newline>c\<newline>d''"
  by (simp add: splice_patch_def splice_half_open_def slice_to_def slice_from_def newline_def)

section \<open>Sequencing of effects\<close>

lemma seq_Inr: "seq (es, Some (Inr x)) f = (case f x of (es', r) \<Rightarrow> (es @ es', r))"
  by (simp add: seq_def split: prod.splits)

lemma seq_Inl: "seq (es, Some (Inl e)) f = (es, Some (Inl e))"
  by (simp add: seq_def)

lemma seq_None: "seq (es, None) f = (es, None)"
  by (simp add: seq_def)

lemmas run_simps = seq_Inr seq_Inl seq_None ret_def emit_def lift_def

lemma snd_seq_Inr:
  "snd (seq m f) = Some (Inr y) \<longleftrightarrow> (\<exists>x. snd m = Some (Inr x) \<and> snd (f x) = Some (Inr y))"
  by (auto simp: seq_def split: option.splits sum.splits)

lemma waiting_ended:
  "wait_loop limit (polls child) = Some r \<Longrightarrow> waiting limit child = ([], Some (Inr r))"
  by (simp add: waiting_def)

lemma waiting_polling:
  "wait_loop limit (polls child) = None \<Longrightarrow> waiting limit child = ([], None)"
  by (simp add: waiting_def)

lemma open_write_ok: "writable w p \<Longrightarrow> open_write w p = ([], Some (Inr ()))"
  by (simp add: open_write_def ret_def)

lemma open_write_fails: "\<not> writable w p \<Longrightarrow> open_write w p = ([], Some (Inl OSError))"
  by (simp add: open_write_def lift_def)

lemma save_file_ok: "writable w p \<Longrightarrow> save_file w p c = ([Write p c], Some (Inr ()))"
  by (simp add: save_file_def open_write_ok run_simps)

lemma save_file_fails: "\<not> writable w p \<Longrightarrow> save_file w p c = ([], Some (Inl OSError))"
  by (simp add: save_file_def open_write_fails run_simps)

lemma index_last: "xs \<noteq> [] \<Longrightarrow> index xs (- 1) = Inr (last xs)"
  by (simp add: index_def last_conv_nth nat_diff_distrib' int_ops)

lemma index_first: "index (x # xs) 0 = Inr x"
  by (simp add: index_def)

text \<open>The definitions that a closed example unfolds.\<close>

lemmas demo_defs = demo_world_def demo_item_def exits_with_def passing_def hangs_def garbled_def
  good_coverage_def unwritable_world_def one_line_coverage_def failing_build_def zero_coverage_def
  slow_coverage_def

lemmas pipeline_defs = validate_all_patches_def run_d4j_test_def test_stage_def
  coverage_stage_def tmp_folder_of_def test_cmd_def coverage_cmd_def increment_path_of_def save_file_def
  open_write_def waiting_def failing_tests_def read_coverage_def coverage_figures_def percentage_def
  analysis_coverage_def splice_patch_def slice_to_def slice_from_def index_def and_then_def
  of_option_def path_join_def returned_def raised_def newline_def Let_def strip_def
  isspace_def remove_char_def fdiv_zero fdiv_80_100 fdiv_50_100

section \<open>Only the first trigger test is run\<close>

lemma run_d4j_test_first:
  "run_d4j_test w s (t # r1) b c = run_d4j_test w s (t # r2) b c"
  by (simp add: run_d4j_test_def index_def)

text \<open>
  Claim C10. Two trigger-test lists with the same first element give the same trial:
  the same events, in the same order, and the same outcome or exception. The other
  elements of the list are never read.
\<close>

theorem only_first_testmethod:
  "validate_all_patches w (it\<lparr>testmethods := t # r1\<rparr>)
     = validate_all_patches w (it\<lparr>testmethods := t # r2\<rparr>)"
  by (simp add: validate_all_patches_def tmp_folder_of_def
      run_d4j_test_first [of w _ t r1 _ _ r2])

section \<open>The test stage\<close>

lemma failing_tests_Nil: "failing_tests [] = Inr True"
  by (simp add: failing_tests_def)

lemma failing_tests_last:
  "log_lines \<noteq> [] \<Longrightarrow>
     failing_tests log_lines
       = and_then (decode (last log_lines)) (\<lambda>s. Inr (s \<noteq> ''Failing tests: 0'' @ [newline]))"
  by (simp add: failing_tests_def index_last and_then_def)

lemma failing_tests_success:
  "failing_tests log_lines = Inr False
     \<longleftrightarrow> log_lines \<noteq> [] \<and> last log_lines = Utf8 (''Failing tests: 0'' @ [newline])"
proof (cases "log_lines = []")
  case True
  then show ?thesis by (simp add: failing_tests_Nil)
next
  case False
  then show ?thesis
    by (cases "last log_lines") (auto simp: failing_tests_last and_then_def)
qed

lemma test_stage_clean:
  assumes "writable w ''/tmp/stderr.txt''"
    and "wait_loop 120 (polls (popen w (test_cmd b t))) = Some Clean"
  shows "test_stage w b t
    = ([Popen (test_cmd b t)],
       Some (and_then (failing_tests (stdout (popen w (test_cmd b t))))
               (\<lambda>bugg. Inr (False, False, bugg))))"
  by (cases "failing_tests (stdout (popen w (test_cmd b t)))")
     (simp_all add: test_stage_def Let_def open_write_ok [OF assms(1)]
        waiting_ended [OF assms(2)] and_then_def run_simps)

text \<open>
  Claim C4, amended. When the polling loop of the test command is left through the
  clean-exit branch, the test stage returns \<open>bugg = False\<close> (trigger success) if and only
  if the output is not empty and its last line, as \<open>readlines\<close> gives it, is the UTF-8
  text \<open>Failing tests: 0\<close> with its newline. Empty output gives \<open>bugg = True\<close>, and so does
  every other last line that is valid UTF-8. A last line that is not valid UTF-8 makes
  \<open>decode\<close> raise \<open>UnicodeDecodeError\<close>.
\<close>

theorem trigger_classification:
  assumes "writable w ''/tmp/stderr.txt''"
    and "wait_loop 120 (polls (popen w (test_cmd b t))) = Some Clean"
  shows "(snd (test_stage w b t) = Some (Inr (False, False, False))
           \<longleftrightarrow> stdout (popen w (test_cmd b t)) \<noteq> []
               \<and> last (stdout (popen w (test_cmd b t))) = Utf8 (''Failing tests: 0'' @ [newline]))
       \<and> (stdout (popen w (test_cmd b t)) = []
            \<longrightarrow> snd (test_stage w b t) = Some (Inr (False, False, True)))
       \<and> (\<forall>s. stdout (popen w (test_cmd b t)) \<noteq> []
              \<and> last (stdout (popen w (test_cmd b t))) = Utf8 s
              \<and> s \<noteq> ''Failing tests: 0'' @ [newline]
            \<longrightarrow> snd (test_stage w b t) = Some (Inr (False, False, True)))
       \<and> (stdout (popen w (test_cmd b t)) \<noteq> []
              \<and> last (stdout (popen w (test_cmd b t))) = Undecodable
            \<longrightarrow> snd (test_stage w b t) = Some (Inl UnicodeDecodeError))"
proof -
  let ?out = "stdout (popen w (test_cmd b t))"
  note ts = test_stage_clean [OF assms]
  have a: "snd (test_stage w b t) = Some (Inr (False, False, False))
           \<longleftrightarrow> ?out \<noteq> [] \<and> last ?out = Utf8 (''Failing tests: 0'' @ [newline])"
    unfolding failing_tests_success [symmetric]
    by (cases "failing_tests ?out") (simp_all add: ts and_then_def)
  have b: "?out = [] \<longrightarrow> snd (test_stage w b t) = Some (Inr (False, False, True))"
    by (simp add: ts failing_tests_Nil and_then_def)
  have c: "\<forall>s. ?out \<noteq> [] \<and> last ?out = Utf8 s \<and> s \<noteq> ''Failing tests: 0'' @ [newline]
            \<longrightarrow> snd (test_stage w b t) = Some (Inr (False, False, True))"
    by (simp add: ts failing_tests_last and_then_def)
  have d: "?out \<noteq> [] \<and> last ?out = Undecodable
            \<longrightarrow> snd (test_stage w b t) = Some (Inl UnicodeDecodeError)"
    by (simp add: ts failing_tests_last and_then_def)
  from a b c d show ?thesis by blast
qed

theorem trigger_classification_witness:
  "writable (demo_world True passing hangs Missing) ''/tmp/stderr.txt''
   \<and> wait_loop 120 (polls (popen (demo_world True passing hangs Missing)
         (test_cmd ''Lang-1-a1B2c3D4'' ''org.T::testA''))) = Some Clean
   \<and> snd (test_stage (demo_world True passing hangs Missing) ''Lang-1-a1B2c3D4'' ''org.T::testA'')
       = Some (Inr (False, False, False))"
proof -
  let ?w = "demo_world True passing hangs Missing"
  have h1: "writable ?w ''/tmp/stderr.txt''" by (simp add: demo_defs)
  have h2: "wait_loop 120 (polls (popen ?w (test_cmd ''Lang-1-a1B2c3D4'' ''org.T::testA'')))
      = Some Clean"
    by (simp add: demo_defs test_cmd_def)
  have h3: "stdout (popen ?w (test_cmd ''Lang-1-a1B2c3D4'' ''org.T::testA''))
      = [Utf8 (''Failing tests: 0'' @ [newline])]"
    by (simp add: demo_defs test_cmd_def newline_def)
  from trigger_classification [OF h1 h2] h3 h1 h2 show ?thesis by simp
qed

text \<open>
  The claim as stated fails where the test command exits with status 0 and the last
  line of its output is not valid UTF-8: the trial raises instead of reporting a trigger
  failure.
\<close>

theorem undecodable_last_line_raises:
  "wait_loop 120 (polls garbled) = Some Clean
   \<and> raised (validate_all_patches (demo_world True garbled passing Missing) demo_item)
       = Some UnicodeDecodeError"
  by (simp add: pipeline_defs demo_defs run_simps)

section \<open>Timeout of the test command\<close>

text \<open>
  The polling loop is left through the timeout branch exactly when every poll up to
  some poll finds the child running, with an elapsed time within the limit at the polls
  before and beyond the limit at that poll.
\<close>

lemma wait_loop_killed_iff:
  "wait_loop limit ps = Some Killed
     \<longleftrightarrow> (\<exists>pre t post. ps = map Running pre @ Running t # post
            \<and> (\<forall>x \<in> set pre. x \<le> limit) \<and> limit < t)"
proof (induction limit ps rule: wait_loop.induct)
  case (1 limit)
  then show ?case by simp
next
  case (2 limit Flag ps)
  have "\<not> (\<exists>pre t post. Exited Flag # ps = map Running pre @ Running t # post
            \<and> (\<forall>x \<in> set pre. x \<le> limit) \<and> limit < t)"
  proof
    assume "\<exists>pre t post. Exited Flag # ps = map Running pre @ Running t # post
            \<and> (\<forall>x \<in> set pre. x \<le> limit) \<and> limit < t"
    then obtain pre t post where "Exited Flag # ps = map Running pre @ Running t # post"
      by blast
    then show False by (cases pre) simp_all
  qed
  moreover have "wait_loop limit (Exited Flag # ps) \<noteq> Some Killed" by simp
  ultimately show ?case by blast
next
  case (3 limit elapsed ps)
  show ?case
  proof (cases "elapsed > limit")
    case True
    have "Running elapsed # ps = map Running [] @ Running elapsed # ps" by simp
    with True have "\<exists>pre t post. Running elapsed # ps = map Running pre @ Running t # post
            \<and> (\<forall>x \<in> set pre. x \<le> limit) \<and> limit < t"
      by (metis empty_iff list.set(1))
    with True show ?thesis by simp
  next
    case False
    have "(\<exists>pre t post. Running elapsed # ps = map Running pre @ Running t # post
            \<and> (\<forall>x \<in> set pre. x \<le> limit) \<and> limit < t)
       \<longleftrightarrow> (\<exists>pre t post. ps = map Running pre @ Running t # post
            \<and> (\<forall>x \<in> set pre. x \<le> limit) \<and> limit < t)" (is "?L \<longleftrightarrow> ?R")
    proof
      assume ?L
      then obtain pre t post
        where e: "Running elapsed # ps = map Running pre @ Running t # post"
          and b: "\<forall>x \<in> set pre. x \<le> limit" and l: "limit < t" by blast
      show ?R
      proof (cases pre)
        case Nil
        with e l False show ?thesis by simp
      next
        case (Cons p pre')
        with e b l show ?thesis by auto
      qed
    next
      assume ?R
      then obtain pre t post where e: "ps = map Running pre @ Running t # post"
        and b: "\<forall>x \<in> set pre. x \<le> limit" and l: "limit < t" by blast
      from e have "Running elapsed # ps = map Running (elapsed # pre) @ Running t # post"
        by simp
      moreover from b False have "\<forall>x \<in> set (elapsed # pre). x \<le> limit" by simp
      ultimately show ?L using l by blast
    qed
    with False 3 show ?thesis by simp
  qed
qed

lemma test_stage_killed:
  assumes "writable w ''/tmp/stderr.txt''"
    and "wait_loop 120 (polls (popen w (test_cmd b t))) = Some Killed"
  shows "test_stage w b t
    = ([Popen (test_cmd b t), Kill (test_cmd b t)], Some (Inr (False, True, True)))"
  by (simp add: test_stage_def Let_def open_write_ok [OF assms(1)] waiting_ended [OF assms(2)]
      failing_tests_Nil run_simps)

lemma run_d4j_test_killed:
  assumes "javalang_parses w s" and "writable w ''/tmp/stderr.txt''"
    and "wait_loop 120 (polls (popen w (test_cmd b t))) = Some Killed"
  shows "run_d4j_test w s (t # r) b c
    = ([Popen (test_cmd b t), Kill (test_cmd b t)],
       Some (Inr (False, True, True, 0, 0, False, [])))"
  using assms(1)
  by (simp add: run_d4j_test_def index_def test_stage_killed [OF assms(2,3)] run_simps)

text \<open>
  Claim C3, amended. When the spliced source parses, the workspace file and the stderr
  file can be written, and the polling loop of the test command is left through the
  timeout branch (elapsed time beyond 120 seconds with the child still running), the trial
  returns an outcome with \<open>timed_out = True\<close>, \<open>pass_trigger = False\<close>, both coverages 0
  and no coverage records, and with \<open>pass_compile = True\<close>: the timeout branch sets
  \<open>timed_out\<close> only, and \<open>compile_fail\<close> keeps its initial value \<open>False\<close>. The events of
  the trial are the two \<open>subprocess.run\<close> calls, the write of the spliced file, the start
  and the kill of the test command and the final \<open>rm\<close>: the coverage stage is not run,
  and no coverage command is started.
\<close>

theorem timeout_outcome:
  assumes "javalang_parses w (splice_patch (source it) (patch it) (start_line it) (end_line it))"
    and "testmethods it = t # ts"
    and "writable w (''/tmp/'' @ tmp_folder_of w it @ ''/'' @ location it)"
    and "writable w ''/tmp/stderr.txt''"
    and "wait_loop 120 (polls (popen w (test_cmd (tmp_folder_of w it) t))) = Some Killed"
  shows "validate_all_patches w it
    = ([Run [''rm'', ''-rf'', ''/tmp/'' @ tmp_folder_of w it],
        Run [''defects4j'', ''checkout'', ''-p'', item_project it, ''-v'',
             item_bug_id it @ ''f'', ''-w'', ''/tmp/'' @ tmp_folder_of w it],
        Write (''/tmp/'' @ tmp_folder_of w it @ ''/'' @ location it)
          (splice_patch (source it) (patch it) (start_line it) (end_line it)),
        Popen (test_cmd (tmp_folder_of w it) t),
        Kill (test_cmd (tmp_folder_of w it) t),
        Run [''rm'', ''-rf'', ''/tmp/'' @ tmp_folder_of w it]],
       Some (Inr \<lparr>idx = item_idx it, project = item_project it, bug_id = item_bug_id it,
            pass_syntax = True, pass_compile = True, pass_trigger = False,
            line_coverage = 0, condition_coverage = 0, timed_out = True,
            lines_coverage_info = []\<rparr>))"
  using assms(3)
  by (simp add: validate_all_patches_def Let_def save_file_ok assms(2)
      run_d4j_test_killed [OF assms(1,4,5)] run_simps)

theorem timeout_outcome_witness:
  "javalang_parses (demo_world True hangs passing Missing)
     (splice_patch (source demo_item) (patch demo_item) (start_line demo_item)
        (end_line demo_item))
   \<and> testmethods demo_item = ''org.T::testA'' # [''org.T::testB'']
   \<and> writable (demo_world True hangs passing Missing) ''/tmp/stderr.txt''
   \<and> wait_loop 120 (polls (popen (demo_world True hangs passing Missing)
        (test_cmd (tmp_folder_of (demo_world True hangs passing Missing) demo_item)
           ''org.T::testA''))) = Some Killed
   \<and> validate_all_patches (demo_world True hangs passing Missing) demo_item
    = ([Run [''rm'', ''-rf'', ''/tmp/Lang-1-a1B2c3D4''],
        Run [''defects4j'', ''checkout'', ''-p'', ''Lang'', ''-v'', ''1f'', ''-w'',
             ''/tmp/Lang-1-a1B2c3D4''],
        Write ''/tmp/Lang-1-a1B2c3D4/src/A.java'' ''int f() {\<newline>  return 1;\<newline>}'',
        Popen ''defects4j test -w /tmp/Lang-1-a1B2c3D4/ -t org.T::testA'',
        Kill ''defects4j test -w /tmp/Lang-1-a1B2c3D4/ -t org.T::testA'',
        Run [''rm'', ''-rf'', ''/tmp/Lang-1-a1B2c3D4'']],
       Some (Inr \<lparr>idx = 0, project = ''Lang'', bug_id = ''1'',
            pass_syntax = True, pass_compile = True, pass_trigger = False,
            line_coverage = 0, condition_coverage = 0, timed_out = True,
            lines_coverage_info = []\<rparr>))"
proof -
  let ?w = "demo_world True hangs passing Missing"
  have 1: "javalang_parses ?w (splice_patch (source demo_item) (patch demo_item)
      (start_line demo_item) (end_line demo_item))"
    by (simp add: demo_defs)
  have 2: "testmethods demo_item = ''org.T::testA'' # [''org.T::testB'']"
    by (simp add: demo_defs)
  have 3: "writable ?w (''/tmp/'' @ tmp_folder_of ?w demo_item @ ''/'' @ location demo_item)"
    by (simp add: demo_defs)
  have 4: "writable ?w ''/tmp/stderr.txt''" by (simp add: demo_defs)
  have 5: "wait_loop 120 (polls (popen ?w (test_cmd (tmp_folder_of ?w demo_item)
      ''org.T::testA''))) = Some Killed"
    by (simp add: demo_defs test_cmd_def)
  have t: "tmp_folder_of ?w demo_item = ''Lang-1-a1B2c3D4''"
    by (simp add: tmp_folder_of_def demo_defs)
  have c: "test_cmd ''Lang-1-a1B2c3D4'' ''org.T::testA''
      = ''defects4j test -w /tmp/Lang-1-a1B2c3D4/ -t org.T::testA''"
    by (simp add: test_cmd_def strip_def isspace_def)
  have s: "splice_patch (source demo_item) (patch demo_item) (start_line demo_item)
      (end_line demo_item) = ''int f() {\<newline>  return 1;\<newline>}''"
    by (simp add: demo_item_def splice_patch_def slice_to_def slice_from_def newline_def)
  have i: "item_idx demo_item = 0" "item_project demo_item = ''Lang''"
    "item_bug_id demo_item = ''1''" "location demo_item = ''src/A.java''"
    by (simp_all add: demo_item_def)
  note r = timeout_outcome [OF 1 2 3 4 5, unfolded t c s i]
  from r have "validate_all_patches ?w demo_item
    = ([Run [''rm'', ''-rf'', ''/tmp/Lang-1-a1B2c3D4''],
        Run [''defects4j'', ''checkout'', ''-p'', ''Lang'', ''-v'', ''1f'', ''-w'',
             ''/tmp/Lang-1-a1B2c3D4''],
        Write ''/tmp/Lang-1-a1B2c3D4/src/A.java'' ''int f() {\<newline>  return 1;\<newline>}'',
        Popen ''defects4j test -w /tmp/Lang-1-a1B2c3D4/ -t org.T::testA'',
        Kill ''defects4j test -w /tmp/Lang-1-a1B2c3D4/ -t org.T::testA'',
        Run [''rm'', ''-rf'', ''/tmp/Lang-1-a1B2c3D4'']],
       Some (Inr \<lparr>idx = 0, project = ''Lang'', bug_id = ''1'',
            pass_syntax = True, pass_compile = True, pass_trigger = False,
            line_coverage = 0, condition_coverage = 0, timed_out = True,
            lines_coverage_info = []\<rparr>))"
    by simp
  with 1 2 4 5 show ?thesis by blast
qed

text \<open>
  The claim as stated fails at a test command that is still running after 121 seconds:
  the outcome has \<open>timed_out = True\<close> and \<open>pass_compile = True\<close>; no event of the trial
  is the start of a coverage command.
\<close>

theorem timeout_counts_as_compiled:
  "wait_loop 120 (polls hangs) = Some Killed
   \<and> validate_all_patches (demo_world True hangs passing Missing) demo_item
    = ([Run [''rm'', ''-rf'', ''/tmp/Lang-1-a1B2c3D4''],
        Run [''defects4j'', ''checkout'', ''-p'', ''Lang'', ''-v'', ''1f'', ''-w'',
             ''/tmp/Lang-1-a1B2c3D4''],
        Write ''/tmp/Lang-1-a1B2c3D4/src/A.java'' ''int f() {\<newline>  return 1;\<newline>}'',
        Popen ''defects4j test -w /tmp/Lang-1-a1B2c3D4/ -t org.T::testA'',
        Kill ''defects4j test -w /tmp/Lang-1-a1B2c3D4/ -t org.T::testA'',
        Run [''rm'', ''-rf'', ''/tmp/Lang-1-a1B2c3D4'']],
       Some (Inr \<lparr>idx = 0, project = ''Lang'', bug_id = ''1'',
            pass_syntax = True, pass_compile = True, pass_trigger = False,
            line_coverage = 0, condition_coverage = 0, timed_out = True,
            lines_coverage_info = []\<rparr>))"
  by (simp add: pipeline_defs demo_defs run_simps)

section \<open>Syntax errors\<close>

lemma run_d4j_test_syntax:
  "\<not> javalang_parses w s \<Longrightarrow>
     run_d4j_test w s tms b c = ([], Some (Inr (True, False, True, 0, 0, True, [])))"
  by (simp add: run_d4j_test_def ret_def)

text \<open>
  Claim C5, amended. When the spliced source does not parse and the workspace file can
  be written, the trial returns an outcome with \<open>pass_syntax\<close>, \<open>pass_compile\<close> and
  \<open>pass_trigger\<close> all \<open>False\<close>, both coverages 0 and no coverage records, and
  \<open>run_d4j_test\<close> causes no event: it starts no subprocess. The trial as a whole still
  runs \<open>rm\<close>, \<open>defects4j checkout\<close> and \<open>rm\<close> again through \<open>subprocess.run\<close>, and writes the
  spliced file; these are all its events.
\<close>

theorem syntax_error_outcome:
  assumes "\<not> javalang_parses w
              (splice_patch (source it) (patch it) (start_line it) (end_line it))"
    and "writable w (''/tmp/'' @ tmp_folder_of w it @ ''/'' @ location it)"
  shows "validate_all_patches w it
    = ([Run [''rm'', ''-rf'', ''/tmp/'' @ tmp_folder_of w it],
        Run [''defects4j'', ''checkout'', ''-p'', item_project it, ''-v'',
             item_bug_id it @ ''f'', ''-w'', ''/tmp/'' @ tmp_folder_of w it],
        Write (''/tmp/'' @ tmp_folder_of w it @ ''/'' @ location it)
          (splice_patch (source it) (patch it) (start_line it) (end_line it)),
        Run [''rm'', ''-rf'', ''/tmp/'' @ tmp_folder_of w it]],
       Some (Inr \<lparr>idx = item_idx it, project = item_project it, bug_id = item_bug_id it,
            pass_syntax = False, pass_compile = False, pass_trigger = False,
            line_coverage = 0, condition_coverage = 0, timed_out = False,
            lines_coverage_info = []\<rparr>))
     \<and> fst (run_d4j_test w (splice_patch (source it) (patch it) (start_line it) (end_line it))
              (testmethods it) (tmp_folder_of w it) (be_test_classes it)) = []"
  using assms(2)
  by (simp add: validate_all_patches_def Let_def save_file_ok
      run_d4j_test_syntax [OF assms(1)] run_simps)

theorem syntax_error_outcome_witness:
  "\<not> javalang_parses (demo_world False passing passing Missing)
        (splice_patch (source demo_item) (patch demo_item) (start_line demo_item)
           (end_line demo_item))
   \<and> returned (validate_all_patches (demo_world False passing passing Missing) demo_item)
    = Some \<lparr>idx = 0, project = ''Lang'', bug_id = ''1'',
            pass_syntax = False, pass_compile = False, pass_trigger = False,
            line_coverage = 0, condition_coverage = 0, timed_out = False,
            lines_coverage_info = []\<rparr>
   \<and> fst (run_d4j_test (demo_world False passing passing Missing)
            (splice_patch (source demo_item) (patch demo_item) (start_line demo_item)
               (end_line demo_item))
            (testmethods demo_item)
            (tmp_folder_of (demo_world False passing passing Missing) demo_item)
            (be_test_classes demo_item)) = []"
proof -
  let ?w = "demo_world False passing passing Missing"
  have 1: "\<not> javalang_parses ?w (splice_patch (source demo_item) (patch demo_item)
      (start_line demo_item) (end_line demo_item))"
    by (simp add: demo_defs)
  have 2: "writable ?w (''/tmp/'' @ tmp_folder_of ?w demo_item @ ''/'' @ location demo_item)"
    by (simp add: demo_defs)
  note r = syntax_error_outcome [OF 1 2]
  from r have "returned (validate_all_patches ?w demo_item)
    = Some \<lparr>idx = 0, project = ''Lang'', bug_id = ''1'',
            pass_syntax = False, pass_compile = False, pass_trigger = False,
            line_coverage = 0, condition_coverage = 0, timed_out = False,
            lines_coverage_info = []\<rparr>"
    by (simp add: returned_def demo_defs)
  with 1 r show ?thesis by blast
qed

text \<open>
  The claim as stated fails twice. A trial whose spliced source does not parse has
  started the checkout by then; and when the workspace file cannot be written, which is
  what a failed checkout leads to, \<open>save_file\<close> raises before the parser is reached.
\<close>

theorem syntax_error_still_launches:
  "\<not> javalang_parses (demo_world False passing passing Missing)
        (splice_patch (source demo_item) (patch demo_item) (start_line demo_item)
           (end_line demo_item))
   \<and> Run [''defects4j'', ''checkout'', ''-p'', ''Lang'', ''-v'', ''1f'', ''-w'',
          ''/tmp/Lang-1-a1B2c3D4'']
       \<in> set (fst (validate_all_patches (demo_world False passing passing Missing) demo_item))
   \<and> \<not> javalang_parses unwritable_world
        (splice_patch (source demo_item) (patch demo_item) (start_line demo_item)
           (end_line demo_item))
   \<and> raised (validate_all_patches unwritable_world demo_item) = Some OSError"
  by (simp add: pipeline_defs demo_defs run_simps)

section \<open>The coverage stage\<close>

lemma coverage_stage_clean:
  assumes "writable w (increment_path_of b)"
    and "wait_loop 180 (polls (popen w (coverage_cmd b t (increment_path_of b)))) = Some Clean"
  shows "coverage_stage w b t cls
    = ([Write (increment_path_of b) (concat (map (\<lambda>file. file @ [newline]) cls)),
        Popen (coverage_cmd b t (increment_path_of b))],
       Some (and_then
               (read_coverage w b (stdout (popen w (coverage_cmd b t (increment_path_of b)))))
               (\<lambda>(lc, cc, info). Inr (False, lc, cc, info))))"
  by (cases "read_coverage w b (stdout (popen w (coverage_cmd b t (increment_path_of b))))")
     (simp_all add: coverage_stage_def Let_def save_file_ok [OF assms(1)]
        waiting_ended [OF assms(2)] and_then_def run_simps split: prod.splits)

lemma coverage_stage_pass:
  assumes "snd (coverage_stage w b t cls) = Some (Inr (False, lc, cc, info))"
  shows "wait_loop 180 (polls (popen w (coverage_cmd b t (increment_path_of b)))) = Some Clean"
proof -
  let ?child = "popen w (coverage_cmd b t (increment_path_of b))"
  from assms obtain ended where e: "snd (waiting 180 ?child) = Some (Inr ended)"
    and r: "\<exists>x. snd (case ended of
                Clean \<Rightarrow> ret (False, stdout ?child)
              | Abnormal \<Rightarrow> ret (True, [])
              | Killed \<Rightarrow> seq (emit (Kill (coverage_cmd b t (increment_path_of b))))
                           (\<lambda>_. ret (True, []))) = Some (Inr x)
          \<and> fst x = False"
    by (auto simp: coverage_stage_def Let_def snd_seq_Inr ret_def split: prod.splits)
  from r have "ended = Clean"
    by (cases ended) (auto simp: run_simps)
  with e show ?thesis by (auto simp: waiting_def)
qed

lemma run_d4j_test_pass:
  assumes "snd (run_d4j_test w s tms b cls) = Some (Inr (cf, to, False, lc, cc, se, info))"
  shows "tms \<noteq> []
     \<and> wait_loop 180 (polls (popen w (coverage_cmd b (hd tms) (increment_path_of b))))
         = Some Clean
     \<and> lc \<noteq> 0"
proof -
  from assms have p: "javalang_parses w s"
    by (auto simp: run_d4j_test_def ret_def split: if_splits)
  with assms obtain t where t: "index tms 0 = Inr t"
    by (auto simp: run_d4j_test_def snd_seq_Inr lift_def)
  then have ne: "tms \<noteq> []" and hd: "hd tms = t"
    by (cases tms; simp add: index_def)+
  from assms p t obtain bugg0 x where
    c: "snd (if \<not> bugg0 then coverage_stage w b t cls else ret (bugg0, 0, 0, []))
          = Some (Inr x)"
    and x: "\<not> (fst x \<or> fst (snd x) = 0)" and l: "lc = fst (snd x)"
    by (auto simp: run_d4j_test_def snd_seq_Inr lift_def ret_def split: prod.splits)
  from c x have nb: "\<not> bugg0" by (cases bugg0) (auto simp: ret_def)
  with c x have "snd (coverage_stage w b t cls)
      = Some (Inr (False, fst (snd x), fst (snd (snd x)), snd (snd (snd x))))"
    by (cases x) auto
  from coverage_stage_pass [OF this] ne hd x l show ?thesis by simp
qed

lemma coverage_stage_not_clean:
  assumes "writable w (increment_path_of b)"
    and "wait_loop 180 (polls (popen w (coverage_cmd b t (increment_path_of b)))) = Some Abnormal
       \<or> wait_loop 180 (polls (popen w (coverage_cmd b t (increment_path_of b)))) = Some Killed"
  shows "snd (coverage_stage w b t cls) = Some (Inr (True, 0, 0, []))"
  using assms(2)
  by (auto simp: coverage_stage_def Let_def save_file_ok [OF assms(1)] waiting_ended
      read_coverage_def run_simps)

lemma trial_returns:
  assumes "writable w (''/tmp/'' @ tmp_folder_of w it @ ''/'' @ location it)"
    and "snd (run_d4j_test w (splice_patch (source it) (patch it) (start_line it) (end_line it))
           (testmethods it) (tmp_folder_of w it) (be_test_classes it))
         = Some (Inr (cf, to, bg, lc, cc, se, info))"
  shows "returned (validate_all_patches w it)
    = Some \<lparr>idx = item_idx it, project = item_project it, bug_id = item_bug_id it,
            pass_syntax = \<not> se, pass_compile = \<not> cf, pass_trigger = \<not> bg,
            line_coverage = lc, condition_coverage = cc, timed_out = to,
            lines_coverage_info = info\<rparr>"
proof -
  obtain es where
    "run_d4j_test w (splice_patch (source it) (patch it) (start_line it) (end_line it))
       (testmethods it) (tmp_folder_of w it) (be_test_classes it)
     = (es, Some (Inr (cf, to, bg, lc, cc, se, info)))"
    using assms(2) by (metis prod.collapse)
  with assms(1) show ?thesis
    by (simp add: validate_all_patches_def Let_def save_file_ok returned_def run_simps)
qed


lemma run_d4j_test_demoted:
  assumes "javalang_parses w s"
    and "writable w ''/tmp/stderr.txt''"
    and "wait_loop 120 (polls (popen w (test_cmd b t))) = Some Clean"
    and "failing_tests (stdout (popen w (test_cmd b t))) = Inr False"
    and "writable w (increment_path_of b)"
    and "wait_loop 180 (polls (popen w (coverage_cmd b t (increment_path_of b)))) = Some Abnormal
       \<or> wait_loop 180 (polls (popen w (coverage_cmd b t (increment_path_of b)))) = Some Killed"
  shows "snd (run_d4j_test w s (t # r) b cls)
         = Some (Inr (False, False, True, 0, 0, False, []))"
proof -
  obtain es where "coverage_stage w b t cls = (es, Some (Inr (True, 0, 0, [])))"
    using coverage_stage_not_clean [OF assms(5,6)] by (metis prod.collapse)
  with assms(1) show ?thesis
    by (simp add: run_d4j_test_def index_first test_stage_clean [OF assms(2,3)] assms(4)
      and_then_def run_simps)
qed

lemma run_d4j_test_covered:
  assumes "javalang_parses w s"
    and "writable w ''/tmp/stderr.txt''"
    and "wait_loop 120 (polls (popen w (test_cmd b t))) = Some Clean"
    and "failing_tests (stdout (popen w (test_cmd b t))) = Inr False"
    and "writable w (increment_path_of b)"
    and "wait_loop 180 (polls (popen w (coverage_cmd b t (increment_path_of b)))) = Some Clean"
  shows "snd (run_d4j_test w s (t # r) b cls)
         = Some (and_then
             (read_coverage w b (stdout (popen w (coverage_cmd b t (increment_path_of b)))))
             (\<lambda>(lc, cc, info). Inr (False, False, lc = 0, lc, cc, False, info)))"
  using assms(1)
  by (cases "read_coverage w b (stdout (popen w (coverage_cmd b t (increment_path_of b))))")
     (auto simp: run_d4j_test_def index_first test_stage_clean [OF assms(2,3)] assms(4)
        coverage_stage_clean [OF assms(5,6)] and_then_def run_simps)

lemma reaches_coverageD:
  assumes "reaches_coverage w it t"
  shows "javalang_parses w (splice_patch (source it) (patch it) (start_line it) (end_line it))"
    and "\<exists>ts. testmethods it = t # ts"
    and "writable w (''/tmp/'' @ tmp_folder_of w it @ ''/'' @ location it)"
    and "writable w ''/tmp/stderr.txt''"
    and "wait_loop 120 (polls (popen w (test_cmd (tmp_folder_of w it) t))) = Some Clean"
    and "failing_tests (stdout (popen w (test_cmd (tmp_folder_of w it) t))) = Inr False"
    and "writable w (increment_path_of (tmp_folder_of w it))"
  using assms by (auto simp: reaches_coverage_def split: list.splits)

lemma trial_demoted:
  assumes "reaches_coverage w it t"
    and "wait_loop 180 (polls (coverage_child w it t)) = Some Abnormal
       \<or> wait_loop 180 (polls (coverage_child w it t)) = Some Killed"
  shows "returned (validate_all_patches w it)
    = Some \<lparr>idx = item_idx it, project = item_project it, bug_id = item_bug_id it,
            pass_syntax = True, pass_compile = True, pass_trigger = False,
            line_coverage = 0, condition_coverage = 0, timed_out = False,
            lines_coverage_info = []\<rparr>"
proof -
  note r = reaches_coverageD [OF assms(1)]
  from r(2) obtain ts where ts: "testmethods it = t # ts" by blast
  from run_d4j_test_demoted [OF r(1,4,5,6,7) assms(2) [unfolded coverage_child_def],
      of ts "be_test_classes it"] ts
  have "snd (run_d4j_test w (splice_patch (source it) (patch it) (start_line it) (end_line it))
           (testmethods it) (tmp_folder_of w it) (be_test_classes it))
         = Some (Inr (False, False, True, 0, 0, False, []))" by simp
  from trial_returns [OF r(3) this] show ?thesis by simp
qed

lemma trial_covered:
  assumes "reaches_coverage w it t"
    and "wait_loop 180 (polls (coverage_child w it t)) = Some Clean"
    and "read_coverage w (tmp_folder_of w it) (stdout (coverage_child w it t))
         = Inr (lc, cc, info)"
  shows "returned (validate_all_patches w it)
    = Some \<lparr>idx = item_idx it, project = item_project it, bug_id = item_bug_id it,
            pass_syntax = True, pass_compile = True, pass_trigger = (lc \<noteq> 0),
            line_coverage = lc, condition_coverage = cc, timed_out = False,
            lines_coverage_info = info\<rparr>"
proof -
  note r = reaches_coverageD [OF assms(1)]
  from r(2) obtain ts where ts: "testmethods it = t # ts" by blast
  from run_d4j_test_covered [OF r(1,4,5,6,7) assms(2) [unfolded coverage_child_def],
      of ts "be_test_classes it"] ts assms(3) [unfolded coverage_child_def]
  have "snd (run_d4j_test w (splice_patch (source it) (patch it) (start_line it) (end_line it))
           (testmethods it) (tmp_folder_of w it) (be_test_classes it))
         = Some (Inr (False, False, lc = 0, lc, cc, False, info))"
    by (simp add: and_then_def)
  from trial_returns [OF r(3) this] show ?thesis by simp
qed


lemma trial_pass_trigger:
  assumes "returned (validate_all_patches w it) = Some out" and "pass_trigger out"
  shows "testmethods it \<noteq> []
     \<and> wait_loop 180 (polls (coverage_child w it (hd (testmethods it)))) = Some Clean
     \<and> line_coverage out \<noteq> 0"
proof -
  let ?s = "splice_patch (source it) (patch it) (start_line it) (end_line it)"
  from assms(1) have v: "snd (validate_all_patches w it) = Some (Inr out)"
    by (auto simp: returned_def split: option.splits sum.splits)
  then obtain cf to bg lc cc se info where
    r: "snd (run_d4j_test w ?s (testmethods it) (tmp_folder_of w it) (be_test_classes it))
          = Some (Inr (cf, to, bg, lc, cc, se, info))"
    and o: "pass_trigger out = (\<not> bg)" "line_coverage out = lc"
    by (auto simp: validate_all_patches_def Let_def snd_seq_Inr ret_def emit_def
        split: prod.splits)
  from o assms(2) have "bg = False" by simp
  with r run_d4j_test_pass [of w ?s "testmethods it" "tmp_folder_of w it"
      "be_test_classes it" cf to lc cc se info] o
  show ?thesis by (simp add: coverage_child_def)
qed

lemma coverage_stage_writable:
  assumes "snd (coverage_stage w b t cls) = Some (Inr x)"
  shows "writable w (increment_path_of b)"
proof (rule ccontr)
  assume "\<not> writable w (increment_path_of b)"
  then have "snd (coverage_stage w b t cls) = Some (Inl OSError)"
    by (simp add: coverage_stage_def Let_def save_file_fails run_simps)
  with assms show False by simp
qed

lemma coverage_stage_pass_read:
  assumes "snd (coverage_stage w b t cls) = Some (Inr (False, lc, cc, info))"
  shows "read_coverage w b (stdout (popen w (coverage_cmd b t (increment_path_of b))))
         = Inr (lc, cc, info)"
proof -
  note c = coverage_stage_clean [OF coverage_stage_writable [OF assms]
      coverage_stage_pass [OF assms], of cls]
  from assms show ?thesis
    unfolding c
    by (cases "read_coverage w b (stdout (popen w (coverage_cmd b t (increment_path_of b))))")
       (auto simp: and_then_def)
qed

lemma run_d4j_test_pass_read:
  assumes "snd (run_d4j_test w s tms b cls) = Some (Inr (cf, to, False, lc, cc, se, info))"
  shows "read_coverage w b (stdout (popen w (coverage_cmd b (hd tms) (increment_path_of b))))
         = Inr (lc, cc, info)"
proof -
  from assms have p: "javalang_parses w s"
    by (auto simp: run_d4j_test_def ret_def split: if_splits)
  with assms obtain t where t: "index tms 0 = Inr t"
    by (auto simp: run_d4j_test_def snd_seq_Inr lift_def)
  then have hd: "hd tms = t"
    by (cases tms; simp add: index_def)
  from assms p t obtain bugg0 x where
    c: "snd (if \<not> bugg0 then coverage_stage w b t cls else ret (bugg0, 0, 0, []))
          = Some (Inr x)"
    and x: "\<not> (fst x \<or> fst (snd x) = 0)"
    and l: "lc = fst (snd x)" "cc = fst (snd (snd x))" "info = snd (snd (snd x))"
    by (auto simp: run_d4j_test_def snd_seq_Inr lift_def ret_def split: prod.splits)
  from c x have nb: "\<not> bugg0" by (cases bugg0) (auto simp: ret_def)
  with c x l have "snd (coverage_stage w b t cls) = Some (Inr (False, lc, cc, info))"
    by (cases x) auto
  from coverage_stage_pass_read [OF this] hd show ?thesis by simp
qed

lemma read_coverage_figures:
  assumes "read_coverage w b log_lines = Inr (lc, cc, info)"
  shows "(log_lines = [] \<and> lc = 0) \<or> coverage_figures w log_lines = Inr (lc, cc)"
  using assms
  by (cases "coverage_figures w log_lines"; cases "analysis_coverage w (''/tmp/'' @ b)")
     (auto simp: read_coverage_def and_then_def split: if_splits)

lemma trial_pass_trigger_read:
  assumes "returned (validate_all_patches w it) = Some out" and "pass_trigger out"
  shows "\<exists>cc. coverage_figures w (stdout (coverage_child w it (hd (testmethods it))))
           = Inr (line_coverage out, cc)"
proof -
  let ?s = "splice_patch (source it) (patch it) (start_line it) (end_line it)"
  from assms(1) have v: "snd (validate_all_patches w it) = Some (Inr out)"
    by (auto simp: returned_def split: option.splits sum.splits)
  then obtain cf to bg lc cc se info where
    r: "snd (run_d4j_test w ?s (testmethods it) (tmp_folder_of w it) (be_test_classes it))
          = Some (Inr (cf, to, bg, lc, cc, se, info))"
    and o: "pass_trigger out = (\<not> bg)" "line_coverage out = lc"
    by (auto simp: validate_all_patches_def Let_def snd_seq_Inr ret_def emit_def
        split: prod.splits)
  from o assms(2) have b: "bg = False" by simp
  from r [unfolded b] have rc: "read_coverage w (tmp_folder_of w it)
      (stdout (coverage_child w it (hd (testmethods it)))) = Inr (lc, cc, info)"
    unfolding coverage_child_def by (rule run_d4j_test_pass_read)
  from run_d4j_test_pass [OF r [unfolded b]] have "lc \<noteq> 0" by simp
  with read_coverage_figures [OF rc] o show ?thesis by auto
qed

text \<open>
  Claim C2. The measured line coverage is a ratio: the theorem is about trials whose
  coverage command reports a line coverage that is not negative. Such a trial reports
  \<open>pass_trigger = True\<close> only if the polling loop of the coverage command was left through
  the clean-exit branch and the measured line coverage is above zero. A trial that gets
  to the coverage stage and whose coverage command exits abnormally or is killed on
  timeout returns an outcome with \<open>pass_trigger = False\<close> and no coverage; one whose
  coverage command exits cleanly and whose coverage is read without an exception returns
  \<open>pass_trigger = True\<close> exactly when the line coverage read is above zero, so that a line
  coverage of 0 gives \<open>pass_trigger = False\<close>.
\<close>

theorem pass_trigger_requires:
  assumes "\<forall>t lc cc. coverage_figures w (stdout (coverage_child w it t)) = Inr (lc, cc)
             \<longrightarrow> 0 \<le> lc"
  shows "(returned (validate_all_patches w it) = Some out \<and> pass_trigger out
      \<longrightarrow> testmethods it \<noteq> []
          \<and> wait_loop 180 (polls (coverage_child w it (hd (testmethods it)))) = Some Clean
          \<and> 0 < line_coverage out)
   \<and> (reaches_coverage w it t
        \<and> (wait_loop 180 (polls (coverage_child w it t)) = Some Abnormal
           \<or> wait_loop 180 (polls (coverage_child w it t)) = Some Killed)
      \<longrightarrow> returned (validate_all_patches w it)
          = Some \<lparr>idx = item_idx it, project = item_project it, bug_id = item_bug_id it,
                  pass_syntax = True, pass_compile = True, pass_trigger = False,
                  line_coverage = 0, condition_coverage = 0, timed_out = False,
                  lines_coverage_info = []\<rparr>)
   \<and> (reaches_coverage w it t
        \<and> wait_loop 180 (polls (coverage_child w it t)) = Some Clean
        \<and> read_coverage w (tmp_folder_of w it) (stdout (coverage_child w it t))
            = Inr (lc, cc, info)
      \<longrightarrow> returned (validate_all_patches w it)
          = Some \<lparr>idx = item_idx it, project = item_project it, bug_id = item_bug_id it,
                  pass_syntax = True, pass_compile = True, pass_trigger = (0 < lc),
                  line_coverage = lc, condition_coverage = cc, timed_out = False,
                  lines_coverage_info = info\<rparr>)"
proof -
  have a: "testmethods it \<noteq> []
          \<and> wait_loop 180 (polls (coverage_child w it (hd (testmethods it)))) = Some Clean
          \<and> 0 < line_coverage out"
    if r: "returned (validate_all_patches w it) = Some out" and p: "pass_trigger out"
  proof -
    from trial_pass_trigger_read [OF r p] assms have "0 \<le> line_coverage out" by blast
    with trial_pass_trigger [OF r p] show ?thesis by simp
  qed
  have c: "returned (validate_all_patches w it)
          = Some \<lparr>idx = item_idx it, project = item_project it, bug_id = item_bug_id it,
                  pass_syntax = True, pass_compile = True, pass_trigger = (0 < lc),
                  line_coverage = lc, condition_coverage = cc, timed_out = False,
                  lines_coverage_info = info\<rparr>"
    if r: "reaches_coverage w it t"
      and k: "wait_loop 180 (polls (coverage_child w it t)) = Some Clean"
      and rc: "read_coverage w (tmp_folder_of w it) (stdout (coverage_child w it t))
            = Inr (lc, cc, info)"
  proof -
    from read_coverage_figures [OF rc] assms have "0 \<le> lc" by auto
    then have "(lc \<noteq> 0) = (0 < lc)" by auto
    with trial_covered [OF r k rc] show ?thesis by simp
  qed
  from a c trial_demoted [of w it t] show ?thesis by blast
qed

lemmas report_defs = demo_report_def broken_report_def findall_def attr_def simple_int_def
  numeral_of_def simple_float_def decimal_of_def

lemmas reach_defs = reaches_coverage_def coverage_child_def starts_test_def test_child_def

theorem pass_trigger_requires_witness:
  "returned (validate_all_patches
      (demo_world True passing good_coverage (Document demo_report)) demo_item)
     = Some \<lparr>idx = 0, project = ''Lang'', bug_id = ''1'', pass_syntax = True,
             pass_compile = True, pass_trigger = True, line_coverage = fdiv 80 100,
             condition_coverage = fdiv 50 100, timed_out = False,
             lines_coverage_info = [(''org.A'', ''org/A.java'', ''1'', True),
                                    (''org.A'', ''org/A.java'', ''2'', False)]\<rparr>
   \<and> wait_loop 180 (polls (coverage_child
         (demo_world True passing good_coverage (Document demo_report)) demo_item
         (hd (testmethods demo_item)))) = Some Clean
   \<and> reaches_coverage (demo_world True passing (exits_with 1 []) Missing) demo_item
         ''org.T::testA''
   \<and> wait_loop 180 (polls (coverage_child
         (demo_world True passing (exits_with 1 []) Missing) demo_item ''org.T::testA''))
       = Some Abnormal
   \<and> returned (validate_all_patches
         (demo_world True passing (exits_with 1 []) Missing) demo_item)
     = Some \<lparr>idx = 0, project = ''Lang'', bug_id = ''1'', pass_syntax = True,
             pass_compile = True, pass_trigger = False, line_coverage = 0,
             condition_coverage = 0, timed_out = False, lines_coverage_info = []\<rparr>
   \<and> wait_loop 180 (polls (coverage_child
         (demo_world True passing slow_coverage Missing) demo_item ''org.T::testA''))
       = Some Killed
   \<and> returned (validate_all_patches (demo_world True passing slow_coverage Missing) demo_item)
     = Some \<lparr>idx = 0, project = ''Lang'', bug_id = ''1'', pass_syntax = True,
             pass_compile = True, pass_trigger = False, line_coverage = 0,
             condition_coverage = 0, timed_out = False, lines_coverage_info = []\<rparr>
   \<and> returned (validate_all_patches
         (demo_world True passing zero_coverage (Document demo_report)) demo_item)
     = Some \<lparr>idx = 0, project = ''Lang'', bug_id = ''1'', pass_syntax = True,
             pass_compile = True, pass_trigger = False, line_coverage = 0,
             condition_coverage = 0, timed_out = False,
             lines_coverage_info = [(''org.A'', ''org/A.java'', ''1'', True),
                                    (''org.A'', ''org/A.java'', ''2'', False)]\<rparr>"
proof -
  let ?g = "demo_world True passing good_coverage (Document demo_report)"
  let ?a = "demo_world True passing (exits_with 1 []) Missing"
  let ?s = "demo_world True passing slow_coverage Missing"
  let ?z = "demo_world True passing zero_coverage (Document demo_report)"
  let ?recs = "[(''org.A'', ''org/A.java'', ''1'', True), (''org.A'', ''org/A.java'', ''2'', False)]"
  let ?good = "\<lparr>idx = 0, project = ''Lang'', bug_id = ''1'', pass_syntax = True,
             pass_compile = True, pass_trigger = True, line_coverage = fdiv 80 100,
             condition_coverage = fdiv 50 100, timed_out = False, lines_coverage_info = ?recs\<rparr>"
  have ng: "\<forall>t lc cc. coverage_figures ?g (stdout (coverage_child ?g demo_item t))
      = Inr (lc, cc) \<longrightarrow> 0 \<le> lc"
    by (simp add: reach_defs pipeline_defs demo_defs report_defs)
  have na: "\<forall>t lc cc. coverage_figures ?a (stdout (coverage_child ?a demo_item t))
      = Inr (lc, cc) \<longrightarrow> 0 \<le> lc"
    by (simp add: reach_defs pipeline_defs demo_defs report_defs)
  have ns: "\<forall>t lc cc. coverage_figures ?s (stdout (coverage_child ?s demo_item t))
      = Inr (lc, cc) \<longrightarrow> 0 \<le> lc"
    by (simp add: reach_defs pipeline_defs demo_defs report_defs)
  have nz: "\<forall>t lc cc. coverage_figures ?z (stdout (coverage_child ?z demo_item t))
      = Inr (lc, cc) \<longrightarrow> 0 \<le> lc"
    by (simp add: reach_defs pipeline_defs demo_defs report_defs)
  have g: "returned (validate_all_patches ?g demo_item) = Some ?good"
    by (simp add: pipeline_defs demo_defs report_defs run_simps)
  have "pass_trigger ?good" by simp
  with pass_trigger_requires [OF ng, of ?good] g
  have 1: "wait_loop 180 (polls (coverage_child ?g demo_item (hd (testmethods demo_item))))
      = Some Clean \<and> 0 < line_coverage ?good" by blast
  have ra: "reaches_coverage ?a demo_item ''org.T::testA''"
    by (simp add: reach_defs pipeline_defs demo_defs)
  have wa: "wait_loop 180 (polls (coverage_child ?a demo_item ''org.T::testA'')) = Some Abnormal"
    by (simp add: reach_defs pipeline_defs demo_defs)
  from pass_trigger_requires [OF na, of _ "''org.T::testA''"] ra wa
  have "returned (validate_all_patches ?a demo_item)
     = Some \<lparr>idx = item_idx demo_item, project = item_project demo_item,
             bug_id = item_bug_id demo_item, pass_syntax = True,
             pass_compile = True, pass_trigger = False, line_coverage = 0,
             condition_coverage = 0, timed_out = False, lines_coverage_info = []\<rparr>"
    by blast
  then have 2: "returned (validate_all_patches ?a demo_item)
     = Some \<lparr>idx = 0, project = ''Lang'', bug_id = ''1'', pass_syntax = True,
             pass_compile = True, pass_trigger = False, line_coverage = 0,
             condition_coverage = 0, timed_out = False, lines_coverage_info = []\<rparr>"
    by (simp add: demo_item_def)
  have rs: "reaches_coverage ?s demo_item ''org.T::testA''"
    by (simp add: reach_defs pipeline_defs demo_defs)
  have ws: "wait_loop 180 (polls (coverage_child ?s demo_item ''org.T::testA'')) = Some Killed"
    by (simp add: reach_defs pipeline_defs demo_defs)
  from pass_trigger_requires [OF ns, of _ "''org.T::testA''"] rs ws
  have "returned (validate_all_patches ?s demo_item)
     = Some \<lparr>idx = item_idx demo_item, project = item_project demo_item,
             bug_id = item_bug_id demo_item, pass_syntax = True,
             pass_compile = True, pass_trigger = False, line_coverage = 0,
             condition_coverage = 0, timed_out = False, lines_coverage_info = []\<rparr>"
    by blast
  then have 3: "returned (validate_all_patches ?s demo_item)
     = Some \<lparr>idx = 0, project = ''Lang'', bug_id = ''1'', pass_syntax = True,
             pass_compile = True, pass_trigger = False, line_coverage = 0,
             condition_coverage = 0, timed_out = False, lines_coverage_info = []\<rparr>"
    by (simp add: demo_item_def)
  have rz: "reaches_coverage ?z demo_item ''org.T::testA''"
    by (simp add: reach_defs pipeline_defs demo_defs)
  have wz: "wait_loop 180 (polls (coverage_child ?z demo_item ''org.T::testA'')) = Some Clean"
    by (simp add: reach_defs pipeline_defs demo_defs)
  have cz: "read_coverage ?z (tmp_folder_of ?z demo_item)
      (stdout (coverage_child ?z demo_item ''org.T::testA'')) = Inr (0, 0, ?recs)"
    by (simp add: reach_defs pipeline_defs demo_defs report_defs)
  from pass_trigger_requires [OF nz, of _ "''org.T::testA''" 0 0 ?recs] rz wz cz
  have "returned (validate_all_patches ?z demo_item)
     = Some \<lparr>idx = item_idx demo_item, project = item_project demo_item,
             bug_id = item_bug_id demo_item, pass_syntax = True,
             pass_compile = True, pass_trigger = ((0::real) < 0), line_coverage = 0,
             condition_coverage = 0, timed_out = False, lines_coverage_info = ?recs\<rparr>"
    by blast
  then have 4: "returned (validate_all_patches ?z demo_item)
     = Some \<lparr>idx = 0, project = ''Lang'', bug_id = ''1'', pass_syntax = True,
             pass_compile = True, pass_trigger = False, line_coverage = 0,
             condition_coverage = 0, timed_out = False, lines_coverage_info = ?recs\<rparr>"
    by (simp add: demo_item_def)
  from g 1 ra wa 2 ws 3 4 show ?thesis by blast
qed


section \<open>The coverage parse\<close>































section \<open>Changed-line coverage\<close>

lemma foldl_insert: "foldl (\<lambda>s x. insert x s) S xs = S \<union> set xs"
  by (induction xs arbitrary: S) auto

lemma diff_coverage_add_detail:
  "diff_coverage (add_detail d detail) = diff_coverage d \<union> set (lines_coverage_info detail)"
  by (simp add: add_detail_def foldl_insert)

lemma diff_coverage_foldl:
  "diff_coverage (foldl add_detail d rs)
     = diff_coverage d \<union> (\<Union>r \<in> set rs. set (lines_coverage_info r))"
  by (induction rs arbitrary: d) (auto simp: diff_coverage_add_detail)

lemma diff_coverage_collect:
  "diff_coverage (collect_details rs) = (\<Union>r \<in> set rs. set (lines_coverage_info r))"
  by (simp add: collect_details_def diff_coverage_foldl new_example_detail_def)

lemma keyed_records:
  "{x \<in> S. key_of x = (c, f, n)} = (\<lambda>h. (c, f, n, h)) ` {h. (c, f, n, h) \<in> S}"
  by (auto simp: key_of_def)

lemma card_keyed_records:
  "card {x \<in> S. key_of x = (c, f, n)} = card {h. (c, f, n, h) \<in> S}"
  unfolding keyed_records by (rule card_image) (simp add: inj_on_def)

text \<open>
  Claim C6, amended. The changed-line records of the trials of one task are deduplicated
  as whole tuples (class, file, line number, hit): the set \<open>diff_coverage\<close> is the union of
  the records of all trials, so the same record seen in any number of trials is counted
  once in the denominator. For one key (class, file, line number) the set holds one record
  for each hit value that was observed with it, at most two: two trials that both report
  \<open>hit = True\<close> for a key count once, and a key seen with \<open>hit = True\<close> in one trial and
  \<open>hit = False\<close> in another counts twice.
\<close>

theorem diff_coverage_dedup:
  "diff_coverage (collect_details rs) = (\<Union>r \<in> set rs. set (lines_coverage_info r))
   \<and> card {x \<in> diff_coverage (collect_details rs). key_of x = (c, f, n)}
       = card {h. \<exists>r \<in> set rs. (c, f, n, h) \<in> set (lines_coverage_info r)}
   \<and> card {x \<in> diff_coverage (collect_details rs). key_of x = (c, f, n)} \<le> 2
   \<and> ((\<exists>r \<in> set rs. (c, f, n, True) \<in> set (lines_coverage_info r))
        \<and> (\<forall>r \<in> set rs. (c, f, n, False) \<notin> set (lines_coverage_info r))
      \<longrightarrow> card {x \<in> diff_coverage (collect_details rs). key_of x = (c, f, n)} = 1)"
proof -
  let ?S = "diff_coverage (collect_details rs)"
  let ?H = "{h. \<exists>r \<in> set rs. (c, f, n, h) \<in> set (lines_coverage_info r)}"
  have H: "{h. (c, f, n, h) \<in> ?S} = ?H"
    by (auto simp: diff_coverage_collect)
  have a: "card {x \<in> ?S. key_of x = (c, f, n)} = card ?H"
    by (simp add: card_keyed_records H)
  have "card ?H \<le> card (UNIV :: bool set)"
    by (rule card_mono) simp_all
  then have b: "card ?H \<le> 2" by (simp add: card_UNIV_bool)
  have d: "card ?H = 1"
    if "\<exists>r \<in> set rs. (c, f, n, True) \<in> set (lines_coverage_info r)"
      and "\<forall>r \<in> set rs. (c, f, n, False) \<notin> set (lines_coverage_info r)"
  proof -
    from that have "?H = {True}" by (auto intro: bool.exhaust) 
    then show ?thesis by simp
  qed
  from a b d diff_coverage_collect [of rs] show ?thesis by simp
qed

theorem diff_coverage_dedup_witness:
  "card {x \<in> diff_coverage (collect_details [hit_trial, hit_trial]).
          key_of x = (''org.A'', ''org/A.java'', ''1'')} = 1"
proof -
  have "(\<exists>r \<in> set [hit_trial, hit_trial].
          (''org.A'', ''org/A.java'', ''1'', True) \<in> set (lines_coverage_info r))
      \<and> (\<forall>r \<in> set [hit_trial, hit_trial].
          (''org.A'', ''org/A.java'', ''1'', False) \<notin> set (lines_coverage_info r))"
    by (simp add: hit_trial_def)
  with diff_coverage_dedup [of "[hit_trial, hit_trial]" "''org.A''" "''org/A.java''" "''1''"]
  show ?thesis by blast
qed

text \<open>
  The claim as stated fails at two trials that report the same key with different hit
  values: one key, two records in the denominator, and a ratio of one half.
\<close>

theorem two_records_for_one_key:
  "key_of ` diff_coverage (collect_details [hit_trial, miss_trial]) = {(''org.A'', ''org/A.java'', ''1'')}
   \<and> card (diff_coverage (collect_details [hit_trial, miss_trial])) = 2
   \<and> diff_coverage_ratio (diff_coverage (collect_details [hit_trial, miss_trial])) = 1 / 2"
proof -
  have s: "diff_coverage (collect_details [hit_trial, miss_trial])
     = {(''org.A'', ''org/A.java'', ''1'', True), (''org.A'', ''org/A.java'', ''1'', False)}"
    by (auto simp: diff_coverage_collect hit_trial_def miss_trial_def)
  have h: "{x \<in> {(''org.A'', ''org/A.java'', ''1'', True), (''org.A'', ''org/A.java'', ''1'', False)}. snd (snd (snd x)) = True}
     = {(''org.A'', ''org/A.java'', ''1'', True)}" by auto
  then have r: "diff_coverage_ratio
      {(''org.A'', ''org/A.java'', ''1'', True), (''org.A'', ''org/A.java'', ''1'', False)} = 1 / 2"
    by (simp add: diff_coverage_ratio_def binary64_half)
  show ?thesis unfolding s r by (simp add: key_of_def)
qed

end
